theory Spec2Isabelle
  imports Main "HOL-Library.Sublist"
begin

section \<open>The feed content database: ordered, fail-fast mutation pipeline\<close>

text \<open>
  A shallow embedding of \<^verbatim>\<open>components/feed/core/feed_content_database.cc\<close>.
  Every member function of \<^verbatim>\<open>FeedContentDatabase\<close> becomes a function on an
  explicit system state. The store calls are asynchronous in the source: a call hands the
  store a request together with a bound completion callback and returns at once; the store
  later runs the callback on the owner sequence. The model keeps that shape: a call appends
  the request to the store's queue, and an event loop (\<open>step\<close>, \<open>run\<close>) serves queued
  requests and runs posted tasks one at a time. \<open>run\<close> is the loop for a database
  object that outlives it; \<open>run_lifetime\<close> is the loop for an object destroyed on the
  way, whose pending completions are then dropped. Histogram emission and the time stamps
  that feed it have no influence on control flow or on the store and are left out.
\<close>

subsection \<open>Strings\<close>

datatype CompareCase = SENSITIVE | INSENSITIVE_ASCII

definition ToLowerASCII :: "char \<Rightarrow> char" where
  "ToLowerASCII c =
     (let n = (of_char c :: nat) in if 65 \<le> n \<and> n \<le> 90 then char_of (n + 32) else c)"

text \<open>
  Modelled from the spec: \<^verbatim>\<open>base::StartsWith\<close> is defined in
  \<^verbatim>\<open>base/strings/string_util.cc\<close>, which is not among the sources. The spec describes
  the sensitive comparison as "key's leading bytes equal prefix exactly" (case-sensitive,
  byte-wise): the first \<open>length search_for\<close> bytes of \<open>str\<close> are compared with
  \<open>search_for\<close>, and a \<open>search_for\<close> longer than \<open>str\<close> never matches.
\<close>

definition StartsWith :: "string \<Rightarrow> string \<Rightarrow> CompareCase \<Rightarrow> bool" where
  "StartsWith str search_for case_sensitivity =
     (if length search_for > length str then False
      else (let source = take (length search_for) str in
            case case_sensitivity of
              SENSITIVE \<Rightarrow> source = search_for
            | INSENSITIVE_ASCII \<Rightarrow> map ToLowerASCII source = map ToLowerASCII search_for))"

subsection \<open>Data model\<close>

text \<open>\<^verbatim>\<open>ContentStorageProto\<close>: the stored record, a key and an opaque byte blob.\<close>

record ContentStorageProto =
  proto_key :: string
  proto_content_data :: string

type_synonym StorageEntryVector = "(string \<times> ContentStorageProto) list"

type_synonym KeyAndData = "string \<times> string"

text \<open>
  Modelled from the spec: the enumeration \<^verbatim>\<open>ContentOperation::Type\<close> is declared in
  \<^verbatim>\<open>feed_content_operation.h\<close>, which is not among the sources. The four named tags
  are the ones the dispatcher's \<^verbatim>\<open>switch\<close> names; \<open>CONTENT_UNRECOGNIZED n\<close> stands for
  any other value of the enumeration's underlying integer type, which is what the
  \<^verbatim>\<open>default\<close> branch of the \<^verbatim>\<open>switch\<close> receives.
\<close>

datatype OperationType =
    CONTENT_DELETE
  | CONTENT_DELETE_BY_PREFIX
  | CONTENT_UPSERT
  | CONTENT_DELETE_ALL
  | CONTENT_UNRECOGNIZED nat

text \<open>
  Modelled from the spec: the class \<^verbatim>\<open>ContentOperation\<close> (a type tag with a key, a
  value and a prefix, read through \<^verbatim>\<open>type()\<close>, \<^verbatim>\<open>key()\<close>, \<^verbatim>\<open>value()\<close> and
  \<^verbatim>\<open>prefix()\<close>) is declared in \<^verbatim>\<open>feed_content_operation.h\<close>.
\<close>

record ContentOperation =
  op_type :: OperationType
  op_key :: string
  op_value :: string
  op_prefix :: string

definition CreateDeleteOperation :: "string \<Rightarrow> ContentOperation" where
  "CreateDeleteOperation k =
     \<lparr>op_type = CONTENT_DELETE, op_key = k, op_value = [], op_prefix = []\<rparr>"

definition CreateDeleteByPrefixOperation :: "string \<Rightarrow> ContentOperation" where
  "CreateDeleteByPrefixOperation p =
     \<lparr>op_type = CONTENT_DELETE_BY_PREFIX, op_key = [], op_value = [], op_prefix = p\<rparr>"

definition CreateUpsertOperation :: "string \<Rightarrow> string \<Rightarrow> ContentOperation" where
  "CreateUpsertOperation k v =
     \<lparr>op_type = CONTENT_UPSERT, op_key = k, op_value = v, op_prefix = []\<rparr>"

definition CreateDeleteAllOperation :: ContentOperation where
  "CreateDeleteAllOperation =
     \<lparr>op_type = CONTENT_DELETE_ALL, op_key = [], op_value = [], op_prefix = []\<rparr>"

text \<open>
  Modelled from the spec: \<^verbatim>\<open>ContentMutation\<close> (\<^verbatim>\<open>feed_content_mutation.h\<close>) is an
  ordered sequence of operations consumed strictly from the front:
  \<^verbatim>\<open>Empty()\<close>, \<^verbatim>\<open>Size()\<close> and \<^verbatim>\<open>TakeFristOperation()\<close>, which removes and
  returns the first operation.
\<close>

type_synonym ContentMutation = "ContentOperation list"

definition Empty :: "ContentMutation \<Rightarrow> bool" where
  "Empty content_mutation = (content_mutation = [])"

definition Size :: "ContentMutation \<Rightarrow> nat" where
  "Size content_mutation = length content_mutation"

text \<open>
  Modelled from the spec: the initialization state, one of NotInitialized, Ready and Failed;
  the source names the first two \<^verbatim>\<open>InitStatus::kNotInitialized\<close> and
  \<^verbatim>\<open>InitStatus::kOK\<close>.
\<close>

datatype InitStatus = kNotInitialized | kOK | kError

text \<open>
  The caller's callbacks are opaque to this code; each is named by a number, and running
  one is recorded in the trace with the arguments it received.
\<close>

type_synonym ConfirmationCallback = nat
type_synonym ContentLoadCallback = nat
type_synonym ContentKeyCallback = nat

record ReadOptions =
  fill_cache :: bool

subsection \<open>Requests to the store and their bound completion callbacks\<close>

text \<open>
  \<^verbatim>\<open>base::BindOnce(&FeedContentDatabase::OnOperationCommitted, weak_ptr,
  std::move(content_mutation), std::move(callback))\<close> and its siblings: the member function
  with the arguments bound at the call.
\<close>

datatype InitCallback = Bind_OnDatabaseInitialized

datatype LoadCallback = Bind_OnLoadEntriesForLoadContent ContentLoadCallback

datatype LoadKeysCallback = Bind_OnLoadKeysForLoadAllContentKeys ContentKeyCallback

datatype UpdateCallback = Bind_OnOperationCommitted ContentMutation ConfirmationCallback

text \<open>
  The calls of \<^verbatim>\<open>leveldb_proto::ProtoDatabase\<close> that the source makes, each with its
  arguments in the source's order. A key filter is a predicate on keys
  (\<^verbatim>\<open>base::BindRepeating\<close> of a filter function with its first argument bound).
\<close>

datatype StoreRequest =
    Init InitCallback
  | LoadEntriesWithFilter "string \<Rightarrow> bool" ReadOptions string LoadCallback
  | LoadKeys LoadKeysCallback
  | UpdateEntries StorageEntryVector "string list" UpdateCallback
  | UpdateEntriesWithRemoveFilter StorageEntryVector "string \<Rightarrow> bool" UpdateCallback

datatype StoreReply =
    InitReply InitStatus
  | LoadReply bool "ContentStorageProto list"
  | KeysReply bool "string list"
  | UpdateReply bool

datatype Task = RunConfirmation ConfirmationCallback bool

datatype Event =
    Dispatched StoreRequest
  | Completed StoreReply
  | ConfirmationRun ConfirmationCallback bool
  | ContentLoadRun ContentLoadCallback bool "KeyAndData list"
  | ContentKeyRun ContentKeyCallback bool "string list"
  | CheckFailed

text \<open>
  The system state: the member \<^verbatim>\<open>database_status_\<close>, the store behind
  \<^verbatim>\<open>storage_database_\<close> (its records, the requests it has accepted and not yet
  completed, and how many it has completed), the tasks posted to the current thread's task
  runner, and the trace of observable events.
\<close>

record System =
  database_status :: InitStatus
  db_entries :: StorageEntryVector
  db_requests :: "StoreRequest list"
  db_served :: nat
  task_queue :: "Task list"
  trace :: "Event list"

text \<open>
  The environment decides what the program cannot: whether the \<open>n\<close>-th request served by the
  store succeeds, and which vectors the store hands over together with a failed load.
\<close>

record Env =
  succeeds :: "nat \<Rightarrow> bool"
  failed_entries :: "ContentStorageProto list"
  failed_keys :: "string list"

subsection \<open>The store\<close>

text \<open>
  Modelled from the spec: the records of the store, one per key. \<open>put_entry\<close> adds a
  record or replaces the one with its key, \<open>remove_key\<close> deletes the record of a key
  (deleting an absent key changes nothing), and a write batch saves its entries and then
  removes its keys.
\<close>

definition put_entry :: "string \<times> ContentStorageProto \<Rightarrow> StorageEntryVector \<Rightarrow> StorageEntryVector" where
  "put_entry e entries =
     (if fst e \<in> fst ` set entries
      then map (\<lambda>x. if fst x = fst e then e else x) entries
      else entries @ [e])"

definition remove_key :: "string \<Rightarrow> StorageEntryVector \<Rightarrow> StorageEntryVector" where
  "remove_key k entries = filter (\<lambda>x. fst x \<noteq> k) entries"

definition write_batch :: "StorageEntryVector \<Rightarrow> string list \<Rightarrow> StorageEntryVector \<Rightarrow> StorageEntryVector" where
  "write_batch entries_to_save keys_to_remove entries =
     fold remove_key keys_to_remove (fold put_entry entries_to_save entries)"

text \<open>
  Modelled from the spec: the key-value store is an external collaborator
  (\<^verbatim>\<open>components/leveldb_proto\<close>), specified at its interface: bulk update (an upsert
  set and a delete set), bulk delete by predicate, filtered load and load of all keys, each
  completing with a success flag. Keys are unique. A request that fails leaves the records
  as they were. A load also restricts to the keys that start with its target prefix. The
  interface does not say which vector comes with a failed load, so the environment supplies
  it: the production store hands over an empty one, the in-memory store of the unit tests
  the records it matched. \<open>serve\<close> gives the reply of a request and the records
  after it.
\<close>

definition serve :: "Env \<Rightarrow> nat \<Rightarrow> StoreRequest \<Rightarrow> StorageEntryVector \<Rightarrow> StoreReply \<times> StorageEntryVector" where
  "serve env n request entries =
     (case request of
        Init cb \<Rightarrow> (InitReply (if succeeds env n then kOK else kError), entries)
      | LoadEntriesWithFilter key_filter options target_prefix cb \<Rightarrow>
          (if succeeds env n
           then (LoadReply True
                   (map snd (filter (\<lambda>e. StartsWith (fst e) target_prefix SENSITIVE \<and> key_filter (fst e))
                                    entries)),
                 entries)
           else (LoadReply False (failed_entries env), entries))
      | LoadKeys cb \<Rightarrow>
          (if succeeds env n then (KeysReply True (map fst entries), entries)
           else (KeysReply False (failed_keys env), entries))
      | UpdateEntries entries_to_save keys_to_remove cb \<Rightarrow>
          (if succeeds env n
           then (UpdateReply True, write_batch entries_to_save keys_to_remove entries)
           else (UpdateReply False, entries))
      | UpdateEntriesWithRemoveFilter entries_to_save delete_key_filter cb \<Rightarrow>
          (if succeeds env n
           then (UpdateReply True,
                 write_batch entries_to_save (filter delete_key_filter (map fst entries)) entries)
           else (UpdateReply False, entries)))"

subsection \<open>The program\<close>

definition CreateReadOptions :: ReadOptions where
  "CreateReadOptions = \<lparr>fill_cache = False\<rparr>"

definition DatabaseKeyFilter :: "string set \<Rightarrow> string \<Rightarrow> bool" where
  "DatabaseKeyFilter key_set k = (k \<in> key_set)"

definition DatabasePrefixFilter :: "string \<Rightarrow> string \<Rightarrow> bool" where
  "DatabasePrefixFilter key_prefix k = StartsWith k key_prefix SENSITIVE"

text \<open>Handing a request to the store: it is queued there, and the call returns.\<close>

definition dispatch :: "StoreRequest \<Rightarrow> System \<Rightarrow> System" where
  "dispatch request s =
     s\<lparr>db_requests := db_requests s @ [request], trace := trace s @ [Dispatched request]\<rparr>"

text \<open>\<^verbatim>\<open>base::ThreadTaskRunnerHandle::Get()->PostTask(FROM_HERE, task)\<close>.\<close>

definition PostTask :: "Task \<Rightarrow> System \<Rightarrow> System" where
  "PostTask task s = s\<lparr>task_queue := task_queue s @ [task]\<rparr>"

text \<open>\<^verbatim>\<open>std::move(callback).Run(success)\<close> on a confirmation callback.\<close>

definition Run_confirmation :: "ConfirmationCallback \<Rightarrow> bool \<Rightarrow> System \<Rightarrow> System" where
  "Run_confirmation callback success s = s\<lparr>trace := trace s @ [ConfirmationRun callback success]\<rparr>"

text \<open>
  The constructor: \<^verbatim>\<open>database_status_\<close> starts as \<^verbatim>\<open>kNotInitialized\<close> and the store
  is asked to open. The argument is what the store holds on disk.
\<close>

definition FeedContentDatabase :: "StorageEntryVector \<Rightarrow> System" where
  "FeedContentDatabase stored =
     dispatch (Init Bind_OnDatabaseInitialized)
       \<lparr>database_status = kNotInitialized, db_entries = stored, db_requests = [],
        db_served = 0, task_queue = [], trace = []\<rparr>"

definition IsInitialized :: "System \<Rightarrow> bool" where
  "IsInitialized s = (database_status s = kOK)"

definition LoadContent :: "string list \<Rightarrow> ContentLoadCallback \<Rightarrow> System \<Rightarrow> System" where
  "LoadContent keys callback s =
     (let key_set = set keys in
      dispatch (LoadEntriesWithFilter (DatabaseKeyFilter key_set) CreateReadOptions []
                  (Bind_OnLoadEntriesForLoadContent callback)) s)"

definition LoadContentByPrefix :: "string \<Rightarrow> ContentLoadCallback \<Rightarrow> System \<Rightarrow> System" where
  "LoadContentByPrefix pfx callback s =
     dispatch (LoadEntriesWithFilter (DatabasePrefixFilter pfx) CreateReadOptions []
                 (Bind_OnLoadEntriesForLoadContent callback)) s"

definition LoadAllContentKeys :: "ContentKeyCallback \<Rightarrow> System \<Rightarrow> System" where
  "LoadAllContentKeys callback s =
     dispatch (LoadKeys (Bind_OnLoadKeysForLoadAllContentKeys callback)) s"

definition UpsertContent :: "ContentOperation \<Rightarrow> ContentMutation \<Rightarrow> ConfirmationCallback \<Rightarrow> System \<Rightarrow> System" where
  "UpsertContent operation content_mutation callback s =
     (let proto = \<lparr>proto_key = op_key operation, proto_content_data = op_value operation\<rparr>;
          contents_to_save = [(proto_key proto, proto)]
      in dispatch (UpdateEntries contents_to_save []
                     (Bind_OnOperationCommitted content_mutation callback)) s)"

definition DeleteContent :: "ContentOperation \<Rightarrow> ContentMutation \<Rightarrow> ConfirmationCallback \<Rightarrow> System \<Rightarrow> System" where
  "DeleteContent operation content_mutation callback s =
     (let content_to_delete = [op_key operation]
      in dispatch (UpdateEntries [] content_to_delete
                     (Bind_OnOperationCommitted content_mutation callback)) s)"

definition DeleteContentByPrefix :: "ContentOperation \<Rightarrow> ContentMutation \<Rightarrow> ConfirmationCallback \<Rightarrow> System \<Rightarrow> System" where
  "DeleteContentByPrefix operation content_mutation callback s =
     dispatch (UpdateEntriesWithRemoveFilter [] (DatabasePrefixFilter (op_prefix operation))
                 (Bind_OnOperationCommitted content_mutation callback)) s"

definition DeleteAllContent :: "ContentOperation \<Rightarrow> ContentMutation \<Rightarrow> ConfirmationCallback \<Rightarrow> System \<Rightarrow> System" where
  "DeleteAllContent operation content_mutation callback s =
     (let key_prefix = [] in
      dispatch (UpdateEntriesWithRemoveFilter [] (DatabasePrefixFilter key_prefix)
                  (Bind_OnOperationCommitted content_mutation callback)) s)"

text \<open>
  \<^verbatim>\<open>PerformNextOperation\<close> takes the first operation off the mutation and dispatches on
  its type. The source asserts (\<^verbatim>\<open>DCHECK\<close>) that the mutation is not empty; on an empty
  one the model records the failed check and does nothing else.
\<close>

definition PerformNextOperation :: "ContentMutation \<Rightarrow> ConfirmationCallback \<Rightarrow> System \<Rightarrow> System" where
  "PerformNextOperation content_mutation callback s =
     (case content_mutation of
        [] \<Rightarrow> s\<lparr>trace := trace s @ [CheckFailed]\<rparr>
      | operation # remaining \<Rightarrow>
          (case op_type operation of
             CONTENT_DELETE \<Rightarrow> DeleteContent operation remaining callback s
           | CONTENT_DELETE_BY_PREFIX \<Rightarrow> DeleteContentByPrefix operation remaining callback s
           | CONTENT_UPSERT \<Rightarrow> UpsertContent operation remaining callback s
           | CONTENT_DELETE_ALL \<Rightarrow> DeleteAllContent operation remaining callback s
           | CONTENT_UNRECOGNIZED n \<Rightarrow> PostTask (RunConfirmation callback False) s))"

definition CommitContentMutation :: "ContentMutation \<Rightarrow> ConfirmationCallback \<Rightarrow> System \<Rightarrow> System" where
  "CommitContentMutation content_mutation callback s =
     (if Empty content_mutation then PostTask (RunConfirmation callback True) s
      else PerformNextOperation content_mutation callback s)"

definition OnDatabaseInitialized :: "InitStatus \<Rightarrow> System \<Rightarrow> System" where
  "OnDatabaseInitialized status s = s\<lparr>database_status := status\<rparr>"

definition OnLoadEntriesForLoadContent :: "ContentLoadCallback \<Rightarrow> bool \<Rightarrow> ContentStorageProto list \<Rightarrow> System \<Rightarrow> System" where
  "OnLoadEntriesForLoadContent callback success content s =
     (let results = map (\<lambda>proto. (proto_key proto, proto_content_data proto)) content
      in s\<lparr>trace := trace s @ [ContentLoadRun callback success results]\<rparr>)"

definition OnLoadKeysForLoadAllContentKeys :: "ContentKeyCallback \<Rightarrow> bool \<Rightarrow> string list \<Rightarrow> System \<Rightarrow> System" where
  "OnLoadKeysForLoadAllContentKeys callback success keys s =
     s\<lparr>trace := trace s @ [ContentKeyRun callback success keys]\<rparr>"

definition OnOperationCommitted :: "ContentMutation \<Rightarrow> ConfirmationCallback \<Rightarrow> bool \<Rightarrow> System \<Rightarrow> System" where
  "OnOperationCommitted content_mutation callback success s =
     (if \<not> success then Run_confirmation callback success s
      else if Empty content_mutation then Run_confirmation callback success s
      else PerformNextOperation content_mutation callback s)"

subsection \<open>The event loop\<close>

text \<open>
  Running the completion callback of a request with the store's reply, for a database
  object that is alive. The store answers a request with the reply of its kind
  (\<open>serve\<close>); the other pairs do not arise.
\<close>

definition complete :: "StoreRequest \<Rightarrow> StoreReply \<Rightarrow> System \<Rightarrow> System" where
  "complete request reply s =
     (case (request, reply) of
        (Init Bind_OnDatabaseInitialized, InitReply status) \<Rightarrow> OnDatabaseInitialized status s
      | (LoadEntriesWithFilter f opts p (Bind_OnLoadEntriesForLoadContent callback), LoadReply success content) \<Rightarrow>
          OnLoadEntriesForLoadContent callback success content s
      | (LoadKeys (Bind_OnLoadKeysForLoadAllContentKeys callback), KeysReply success keys) \<Rightarrow>
          OnLoadKeysForLoadAllContentKeys callback success keys s
      | (UpdateEntries save remove (Bind_OnOperationCommitted content_mutation callback), UpdateReply success) \<Rightarrow>
          OnOperationCommitted content_mutation callback success s
      | (UpdateEntriesWithRemoveFilter save f (Bind_OnOperationCommitted content_mutation callback), UpdateReply success) \<Rightarrow>
          OnOperationCommitted content_mutation callback success s
      | _ \<Rightarrow> s)"

definition run_task :: "Task \<Rightarrow> System \<Rightarrow> System" where
  "run_task task s = (case task of RunConfirmation callback success \<Rightarrow> Run_confirmation callback success s)"

definition quiescent :: "System \<Rightarrow> bool" where
  "quiescent s = (task_queue s = [] \<and> db_requests s = [])"

text \<open>
  One turn of the loop: the oldest posted task runs, if there is one; otherwise the store
  completes its oldest request and the request's callback runs with the reply.
\<close>

definition step :: "Env \<Rightarrow> System \<Rightarrow> System" where
  "step env s =
     (case task_queue s of
        task # tasks \<Rightarrow> run_task task (s\<lparr>task_queue := tasks\<rparr>)
      | [] \<Rightarrow>
          (case db_requests s of
             [] \<Rightarrow> s
           | request # requests \<Rightarrow>
               (let (reply, entries) = serve env (db_served s) request (db_entries s)
                in complete request reply
                     (s\<lparr>db_entries := entries, db_requests := requests,
                        db_served := Suc (db_served s),
                        trace := trace s @ [Completed reply]\<rparr>))))"

text \<open>
  The completion callbacks are bound to a weak pointer to the database object
  (\<^verbatim>\<open>weak_ptr_factory_.GetWeakPtr()\<close>): once the object is destroyed, a completion
  that arrives is dropped, and with it the caller's callback it holds. \<open>complete\<close> and
  \<open>step\<close> are the case of an object that is alive; \<open>complete_weak\<close> and
  \<open>step_weak\<close> take the liveness as an argument. A task posted with
  \<^verbatim>\<open>PostTask\<close> holds the caller's callback itself and runs either way. The store
  carries out a request it has accepted whether or not the object still exists.
\<close>

definition complete_weak :: "bool \<Rightarrow> StoreRequest \<Rightarrow> StoreReply \<Rightarrow> System \<Rightarrow> System" where
  "complete_weak alive request reply s = (if alive then complete request reply s else s)"

definition step_weak :: "bool \<Rightarrow> Env \<Rightarrow> System \<Rightarrow> System" where
  "step_weak alive env s =
     (case task_queue s of
        task # tasks \<Rightarrow> run_task task (s\<lparr>task_queue := tasks\<rparr>)
      | [] \<Rightarrow>
          (case db_requests s of
             [] \<Rightarrow> s
           | request # requests \<Rightarrow>
               (let (reply, entries) = serve env (db_served s) request (db_entries s)
                in complete_weak alive request reply
                     (s\<lparr>db_entries := entries, db_requests := requests,
                        db_served := Suc (db_served s),
                        trace := trace s @ [Completed reply]\<rparr>))))"

fun request_weight :: "StoreRequest \<Rightarrow> nat" where
  "request_weight (UpdateEntries save remove (Bind_OnOperationCommitted content_mutation callback)) =
     Suc (length content_mutation)"
| "request_weight (UpdateEntriesWithRemoveFilter save f (Bind_OnOperationCommitted content_mutation callback)) =
     Suc (length content_mutation)"
| "request_weight request = 1"

definition weight :: "System \<Rightarrow> nat" where
  "weight s = length (task_queue s) + sum_list (map request_weight (db_requests s))"

subsection \<open>Reference notions the properties are stated with\<close>

fun recognised :: "OperationType \<Rightarrow> bool" where
  "recognised (CONTENT_UNRECOGNIZED n) = False"
| "recognised t = True"

text \<open>
  What an operation means for the records, in the spec's words: an upsert adds or replaces
  \<open>key \<rightarrow> value\<close>, a delete removes the key, a delete-by-prefix removes every record
  whose key starts with the prefix, and a delete-all removes every record.
\<close>

definition apply_operation :: "ContentOperation \<Rightarrow> StorageEntryVector \<Rightarrow> StorageEntryVector" where
  "apply_operation operation entries =
     (case op_type operation of
        CONTENT_UPSERT \<Rightarrow>
          put_entry (op_key operation,
                     \<lparr>proto_key = op_key operation, proto_content_data = op_value operation\<rparr>) entries
      | CONTENT_DELETE \<Rightarrow> remove_key (op_key operation) entries
      | CONTENT_DELETE_BY_PREFIX \<Rightarrow> filter (\<lambda>e. \<not> prefix (op_prefix operation) (fst e)) entries
      | CONTENT_DELETE_ALL \<Rightarrow> []
      | CONTENT_UNRECOGNIZED n \<Rightarrow> entries)"

text \<open>
  The request with which the dispatcher hands an operation of a recognised type to the
  store; \<open>remaining\<close> is the rest of the mutation, bound into the completion callback.
  For a tag that is not recognised the dispatcher makes no request; the last case only makes
  the function total and is never used: every statement about \<open>request_for\<close> is
  under \<open>recognised\<close>.
\<close>

definition request_for :: "ContentOperation \<Rightarrow> ContentMutation \<Rightarrow> ConfirmationCallback \<Rightarrow> StoreRequest" where
  "request_for operation remaining callback =
     (case op_type operation of
        CONTENT_UPSERT \<Rightarrow>
          UpdateEntries
            [(op_key operation, \<lparr>proto_key = op_key operation, proto_content_data = op_value operation\<rparr>)]
            [] (Bind_OnOperationCommitted remaining callback)
      | CONTENT_DELETE \<Rightarrow>
          UpdateEntries [] [op_key operation] (Bind_OnOperationCommitted remaining callback)
      | CONTENT_DELETE_BY_PREFIX \<Rightarrow>
          UpdateEntriesWithRemoveFilter [] (DatabasePrefixFilter (op_prefix operation))
            (Bind_OnOperationCommitted remaining callback)
      | CONTENT_DELETE_ALL \<Rightarrow>
          UpdateEntriesWithRemoveFilter [] (DatabasePrefixFilter [])
            (Bind_OnOperationCommitted remaining callback)
      | CONTENT_UNRECOGNIZED n \<Rightarrow>
          UpdateEntriesWithRemoveFilter [] (DatabasePrefixFilter [])
            (Bind_OnOperationCommitted remaining callback))"

text \<open>
  The events of committing the operations \<open>done\<close> one after the other, each completing
  with success, when \<open>rest\<close> is what follows them in the mutation.
\<close>

fun committed_trace :: "ContentMutation \<Rightarrow> ContentMutation \<Rightarrow> ConfirmationCallback \<Rightarrow> Event list" where
  "committed_trace [] rest callback = []"
| "committed_trace (operation # done) rest callback =
     [Dispatched (request_for operation (done @ rest) callback), Completed (UpdateReply True)]
     @ committed_trace done rest callback"

text \<open>The runs of confirmation callbacks in a trace, in order.\<close>

fun confirmations :: "Event list \<Rightarrow> (ConfirmationCallback \<times> bool) list" where
  "confirmations [] = []"
| "confirmations (ConfirmationRun callback success # evs) = (callback, success) # confirmations evs"
| "confirmations (ev # evs) = confirmations evs"

text \<open>The records a content-load callback received, as a content vector converts to them.\<close>

definition to_results :: "ContentStorageProto list \<Rightarrow> KeyAndData list" where
  "to_results content = map (\<lambda>proto. (proto_key proto, proto_content_data proto)) content"

text \<open>
  The four ways a commit ends, and the flag each passes to the confirmation callback.
  \<open>perform_path\<close> follows the dispatcher through a non-empty mutation whose first
  request is the \<open>n\<close>-th the store serves.
\<close>

datatype TerminalPath = EmptyBatchSuccess | FirstFailure | AllCommitted | UnsupportedOperation

fun perform_path :: "Env \<Rightarrow> nat \<Rightarrow> ContentMutation \<Rightarrow> TerminalPath" where
  "perform_path env n [] = AllCommitted"
| "perform_path env n (operation # remaining) =
     (if \<not> recognised (op_type operation) then UnsupportedOperation
      else if \<not> succeeds env n then FirstFailure
      else perform_path env (Suc n) remaining)"

definition terminal_path :: "Env \<Rightarrow> nat \<Rightarrow> ContentMutation \<Rightarrow> TerminalPath" where
  "terminal_path env n content_mutation =
     (if content_mutation = [] then EmptyBatchSuccess else perform_path env n content_mutation)"

fun path_flag :: "TerminalPath \<Rightarrow> bool" where
  "path_flag EmptyBatchSuccess = True"
| "path_flag AllCommitted = True"
| "path_flag FirstFailure = False"
| "path_flag UnsupportedOperation = False"

text \<open>
  The events of a commit when the object outlives it: for each operation its request and
  the completion, up to the first unrecognised operation or failed request, and then the
  one run of the confirmation callback.
\<close>

fun commit_events :: "Env \<Rightarrow> nat \<Rightarrow> ContentMutation \<Rightarrow> ConfirmationCallback \<Rightarrow> Event list" where
  "commit_events env n [] callback = [ConfirmationRun callback True]"
| "commit_events env n (operation # remaining) callback =
     (if \<not> recognised (op_type operation) then [ConfirmationRun callback False]
      else [Dispatched (request_for operation remaining callback),
            Completed (UpdateReply (succeeds env n))]
           @ (if succeeds env n then commit_events env (Suc n) remaining callback
              else [ConfirmationRun callback False]))"

text \<open>
  The events of a commit when the object is destroyed after \<open>life\<close> turns of the
  loop: a completion that arrives after that is not followed by anything.
\<close>

fun lifetime_events :: "nat \<Rightarrow> Env \<Rightarrow> nat \<Rightarrow> ContentMutation \<Rightarrow> ConfirmationCallback \<Rightarrow> Event list" where
  "lifetime_events life env n [] callback = [ConfirmationRun callback True]"
| "lifetime_events life env n (operation # remaining) callback =
     (if \<not> recognised (op_type operation) then [ConfirmationRun callback False]
      else [Dispatched (request_for operation remaining callback),
            Completed (UpdateReply (succeeds env n))]
           @ (if life = 0 then []
              else if succeeds env n then lifetime_events (life - 1) env (Suc n) remaining callback
              else [ConfirmationRun callback False]))"

text \<open>
  The state once the store has completed the request of \<open>operation\<close>, before the
  completion callback runs.
\<close>

definition after_commit :: "Env \<Rightarrow> ContentOperation \<Rightarrow> ContentMutation \<Rightarrow> ConfirmationCallback \<Rightarrow> System \<Rightarrow> System" where
  "after_commit env operation m cb s =
     s\<lparr>db_entries := (if succeeds env (db_served s) then apply_operation operation (db_entries s)
                      else db_entries s),
       db_served := Suc (db_served s),
       trace := trace s @ [Dispatched (request_for operation m cb),
                           Completed (UpdateReply (succeeds env (db_served s)))]\<rparr>"

text \<open>The state once the operations \<open>done\<close> have all been committed with success.\<close>

definition after_all :: "ContentMutation \<Rightarrow> ContentMutation \<Rightarrow> ConfirmationCallback \<Rightarrow> System \<Rightarrow> System" where
  "after_all done rest cb s =
     s\<lparr>db_entries := fold apply_operation done (db_entries s),
       db_served := db_served s + length done,
       trace := trace s @ committed_trace done rest cb\<rparr>"

text \<open>Two environments: every request succeeds; every request but the \<open>k\<close>-th succeeds.\<close>

definition always_succeeds :: Env where
  "always_succeeds = \<lparr>succeeds = (\<lambda>n. True), failed_entries = [], failed_keys = []\<rparr>"

definition fails_at :: "nat \<Rightarrow> Env" where
  "fails_at k = \<lparr>succeeds = (\<lambda>n. n \<noteq> k), failed_entries = [], failed_keys = []\<rparr>"

text \<open>
  The state once the constructor has run and the store has opened with success: nothing
  is posted or pending.
\<close>

definition opened :: "StorageEntryVector \<Rightarrow> System" where
  "opened stored =
     \<lparr>database_status = kOK, db_entries = stored, db_requests = [], db_served = 1,
      task_queue = [],
      trace = [Dispatched (Init Bind_OnDatabaseInitialized), Completed (InitReply kOK)]\<rparr>"

section \<open>Termination of the event loop\<close>

lemma weight_OnOperationCommitted:
  "weight (OnOperationCommitted m cb ok s) \<le> weight s + length m"
  by (cases m) (simp_all add: OnOperationCommitted_def Run_confirmation_def Empty_def weight_def
      PerformNextOperation_def DeleteContent_def DeleteContentByPrefix_def
      UpsertContent_def DeleteAllContent_def dispatch_def PostTask_def Let_def
      split: OperationType.splits)

lemma weight_complete:
  "weight (complete r reply s) + 1 \<le> weight s + request_weight r"
  unfolding complete_def
  using weight_OnOperationCommitted
  by (auto split: StoreRequest.splits StoreReply.splits InitCallback.splits LoadCallback.splits
      LoadKeysCallback.splits UpdateCallback.splits
      simp: OnDatabaseInitialized_def OnLoadEntriesForLoadContent_def
        OnLoadKeysForLoadAllContentKeys_def weight_def)

lemma step_decreases: "\<not> quiescent s \<Longrightarrow> weight (step env s) < weight s"
proof (cases "task_queue s")
  case (Cons t ts)
  then show ?thesis
    by (simp add: step_def run_task_def Run_confirmation_def weight_def split: Task.splits)
next
  case Nil
  assume "\<not> quiescent s"
  with Nil obtain r rs where rs: "db_requests s = r # rs"
    by (cases "db_requests s") (auto simp: quiescent_def)
  obtain reply entries where sv: "serve env (db_served s) r (db_entries s) = (reply, entries)"
    by (cases "serve env (db_served s) r (db_entries s)")
  let ?s' = "s\<lparr>db_entries := entries, db_requests := rs, db_served := Suc (db_served s),
                trace := trace s @ [Completed reply]\<rparr>"
  have "weight (complete r reply ?s') + 1 \<le> weight ?s' + request_weight r"
    by (rule weight_complete)
  moreover have "weight ?s' + request_weight r = weight s"
    using Nil rs by (simp add: weight_def)
  moreover have "step env s = complete r reply ?s'"
    using Nil rs sv by (simp add: step_def)
  ultimately show ?thesis by simp
qed

text \<open>
  The loop turns until no task is posted and no request is with the store. It always gets
  there: every turn lowers \<open>weight\<close>.
\<close>

function run :: "Env \<Rightarrow> System \<Rightarrow> System" where
  "run env s = (if quiescent s then s else run env (step env s))"
  by pat_completeness auto
termination
  by (relation "measure (\<lambda>(env, s). weight s)") (simp_all add: step_decreases)

declare run.simps [simp del]

lemma step_weak_alive: "step_weak True env s = step env s"
  by (simp add: step_weak_def step_def complete_weak_def split: list.splits prod.splits)

lemma step_weak_decreases: "\<not> quiescent s \<Longrightarrow> weight (step_weak alive env s) < weight s"
proof (cases alive)
  case True
  assume "\<not> quiescent s"
  with True show ?thesis by (simp add: step_weak_alive step_decreases)
next
  case False
  assume nq: "\<not> quiescent s"
  show ?thesis
  proof (cases "task_queue s")
    case (Cons t ts)
    then show ?thesis
      by (simp add: step_weak_def run_task_def Run_confirmation_def weight_def split: Task.splits)
  next
    case Nil
    with nq obtain r rs where rs: "db_requests s = r # rs"
      by (cases "db_requests s") (auto simp: quiescent_def)
    have "0 < request_weight r" by (cases r rule: request_weight.cases) simp_all
    then show ?thesis
      using Nil rs False
      by (simp add: step_weak_def complete_weak_def weight_def split: prod.splits)
  qed
qed

text \<open>
  The loop for an object that is destroyed after \<open>life\<close> turns: the first
  \<open>life\<close> turns run completion callbacks, the later ones drop them.
\<close>

function run_lifetime :: "nat \<Rightarrow> Env \<Rightarrow> System \<Rightarrow> System" where
  "run_lifetime life env s =
     (if quiescent s then s else run_lifetime (life - 1) env (step_weak (0 < life) env s))"
  by pat_completeness auto
termination
  by (relation "measure (\<lambda>(life, env, s). weight s)") (simp_all add: step_weak_decreases)

declare run_lifetime.simps [simp del]

section \<open>The event loop and the store, step by step\<close>

lemma run_quiescent: "quiescent s \<Longrightarrow> run env s = s"
  by (simp add: run.simps)

lemma run_step: "\<not> quiescent s \<Longrightarrow> run env s = run env (step env s)"
  by (subst run.simps) simp

lemma run_ends_quiescent: "quiescent (run env s)"
proof (induction env s rule: run.induct)
  case (1 env s)
  show ?case
  proof (cases "quiescent s")
    case True
    then show ?thesis by (simp add: run_quiescent)
  next
    case False
    with 1 show ?thesis by (simp add: run_step)
  qed
qed

lemma StartsWith_sensitive: "StartsWith k p SENSITIVE = prefix p k"
proof (cases "length p \<le> length k")
  case True
  have "(take (length p) k = p) = prefix p k"
    by (metis append_eq_conv_conj prefix_def)
  with True show ?thesis by (simp add: StartsWith_def)
next
  case False
  then have "\<not> prefix p k" by (auto dest: prefix_length_le)
  with False show ?thesis by (simp add: StartsWith_def)
qed

lemma StartsWith_empty: "StartsWith k [] SENSITIVE"
  by (simp add: StartsWith_sensitive)

lemma DatabasePrefixFilter_prefix: "DatabasePrefixFilter p k = prefix p k"
  by (simp add: DatabasePrefixFilter_def StartsWith_sensitive)

lemma DatabasePrefixFilter_empty: "DatabasePrefixFilter [] k"
  by (simp add: DatabasePrefixFilter_prefix)

lemma fold_remove_key: "fold remove_key ks es = filter (\<lambda>e. fst e \<notin> set ks) es"
proof (induction ks arbitrary: es)
  case Nil
  show ?case by simp
next
  case (Cons k ks)
  have "fold remove_key (k # ks) es = filter (\<lambda>e. fst e \<notin> set ks) (remove_key k es)"
    by (simp add: Cons.IH)
  also have "\<dots> = filter (\<lambda>e. fst e \<notin> set (k # ks)) es"
    by (simp add: remove_key_def conj_commute)
  finally show ?case .
qed

lemma remove_all: "fold remove_key (map fst es) es = []"
  by (simp add: fold_remove_key)

lemma remove_matching: "fold remove_key (filter f (map fst es)) es = filter (\<lambda>e. \<not> f (fst e)) es"
  unfolding fold_remove_key by (rule filter_cong) auto

lemma PerformNextOperation_recognised:
  "recognised (op_type operation) \<Longrightarrow>
   PerformNextOperation (operation # m) cb s = dispatch (request_for operation m cb) s"
  by (cases "op_type operation")
     (simp_all add: PerformNextOperation_def request_for_def DeleteContent_def
        DeleteContentByPrefix_def UpsertContent_def DeleteAllContent_def Let_def)

lemma PerformNextOperation_unrecognised:
  "\<not> recognised (op_type operation) \<Longrightarrow>
   PerformNextOperation (operation # m) cb s = PostTask (RunConfirmation cb False) s"
  by (cases "op_type operation") (simp_all add: PerformNextOperation_def)

lemma PerformNextOperation_delete_all:
  "op_type operation = CONTENT_DELETE_ALL \<Longrightarrow>
   PerformNextOperation (operation # m) cb s =
   dispatch (UpdateEntriesWithRemoveFilter [] (DatabasePrefixFilter [])
               (Bind_OnOperationCommitted m cb)) s"
  by (simp add: PerformNextOperation_def DeleteAllContent_def)

lemma PerformNextOperation_delete_by_prefix:
  "op_type operation = CONTENT_DELETE_BY_PREFIX \<Longrightarrow>
   PerformNextOperation (operation # m) cb s =
   dispatch (UpdateEntriesWithRemoveFilter [] (DatabasePrefixFilter (op_prefix operation))
               (Bind_OnOperationCommitted m cb)) s"
  by (simp add: PerformNextOperation_def DeleteContentByPrefix_def)

lemma serve_request_for:
  "recognised (op_type operation) \<Longrightarrow>
   serve env n (request_for operation m cb) entries =
     (UpdateReply (succeeds env n), if succeeds env n then apply_operation operation entries else entries)"
  by (cases "op_type operation")
     (simp_all add: serve_def request_for_def apply_operation_def write_batch_def
        remove_matching remove_all DatabasePrefixFilter_prefix)

lemma complete_request_for:
  "recognised (op_type operation) \<Longrightarrow>
   complete (request_for operation m cb) (UpdateReply ok) s = OnOperationCommitted m cb ok s"
  by (cases "op_type operation") (simp_all add: complete_def request_for_def)

lemma step_dispatch_request_for:
  assumes "quiescent s" "recognised (op_type operation)"
  shows "step env (dispatch (request_for operation m cb) s) =
         OnOperationCommitted m cb (succeeds env (db_served s)) (after_commit env operation m cb s)"
  using assms
  by (cases s) (simp add: step_def dispatch_def quiescent_def serve_request_for complete_request_for
        after_commit_def)

lemma quiescent_after_commit [simp]: "quiescent (after_commit env operation m cb s) = quiescent s"
  by (simp add: quiescent_def after_commit_def)

lemma quiescent_after_all [simp]: "quiescent (after_all done rest cb s) = quiescent s"
  by (simp add: quiescent_def after_all_def)

lemma dispatch_not_quiescent [simp]: "\<not> quiescent (dispatch r s)"
  by (simp add: quiescent_def dispatch_def)

lemma PostTask_not_quiescent [simp]: "\<not> quiescent (PostTask t s)"
  by (simp add: quiescent_def PostTask_def)

lemma quiescent_Run_confirmation [simp]: "quiescent (Run_confirmation cb b s) = quiescent s"
  by (simp add: quiescent_def Run_confirmation_def)

lemma quiescent_opened [simp]: "quiescent (opened stored)"
  by (simp add: quiescent_def opened_def)

lemma run_constructor:
  "succeeds env 0 \<Longrightarrow> run env (FeedContentDatabase stored) = opened stored"
proof -
  assume ok: "succeeds env 0"
  have "step env (FeedContentDatabase stored) = opened stored"
    using ok by (simp add: step_def FeedContentDatabase_def dispatch_def serve_def complete_def
        OnDatabaseInitialized_def opened_def)
  moreover have "quiescent (opened stored)" by (simp add: quiescent_def opened_def)
  moreover have "\<not> quiescent (FeedContentDatabase stored)" by (simp add: FeedContentDatabase_def)
  ultimately show ?thesis by (simp add: run_step run_quiescent)
qed

lemma run_commit_step:
  assumes "quiescent s" "recognised (op_type operation)"
  shows "run env (PerformNextOperation (operation # m) cb s) =
         run env (OnOperationCommitted m cb (succeeds env (db_served s))
                    (after_commit env operation m cb s))"
  using assms
  by (simp add: PerformNextOperation_recognised run_step step_dispatch_request_for)

lemma run_PostTask:
  assumes "quiescent s"
  shows "run env (PostTask (RunConfirmation cb b) s) = Run_confirmation cb b s"
proof -
  have "step env (PostTask (RunConfirmation cb b) s) = Run_confirmation cb b s"
    using assms by (cases s) (simp add: step_def PostTask_def quiescent_def run_task_def Run_confirmation_def)
  then show ?thesis
    using assms by (simp add: run_step run_quiescent)
qed

lemma after_commit_succeeds:
  "succeeds env (db_served s) \<Longrightarrow>
   after_commit env operation m cb s = after_all [operation] m cb s"
  by (simp add: after_commit_def after_all_def)

lemma after_all_Cons:
  "after_all done rest cb (after_all [operation] (done @ rest) cb s) =
   after_all (operation # done) rest cb s"
  by (simp add: after_all_def)

lemma after_all_Nil [simp]: "after_all [] rest cb s = s"
  by (simp add: after_all_def)

lemma OnOperationCommitted_next:
  "m \<noteq> [] \<Longrightarrow> OnOperationCommitted m cb True s = PerformNextOperation m cb s"
  by (simp add: OnOperationCommitted_def Empty_def)

lemma OnOperationCommitted_done:
  "OnOperationCommitted [] cb ok s = Run_confirmation cb ok s"
  by (simp add: OnOperationCommitted_def Empty_def)

lemma OnOperationCommitted_failed:
  "OnOperationCommitted m cb False s = Run_confirmation cb False s"
  by (simp add: OnOperationCommitted_def)

lemma run_committed:
  assumes "quiescent s"
    and "\<forall>operation \<in> set done. recognised (op_type operation)"
    and "\<forall>i < length done. succeeds env (db_served s + i)"
    and "done @ rest \<noteq> []"
  shows "run env (PerformNextOperation (done @ rest) cb s) =
         run env (OnOperationCommitted rest cb True (after_all done rest cb s))"
  using assms
proof (induction "done" arbitrary: s)
  case Nil
  then show ?case by (simp add: OnOperationCommitted_next)
next
  case (Cons operation "done")
  let ?s1 = "after_all [operation] (done @ rest) cb s"
  have ok: "succeeds env (db_served s)"
    using Cons.prems(3) by force
  have served: "db_served ?s1 = Suc (db_served s)"
    by (simp add: after_all_def)
  have first: "run env (PerformNextOperation ((operation # done) @ rest) cb s) =
               run env (OnOperationCommitted (done @ rest) cb True ?s1)"
    using Cons.prems(1,2) ok by (simp add: run_commit_step after_commit_succeeds)
  show ?case
  proof (cases "done @ rest = []")
    case True
    then show ?thesis using first by (simp add: after_all_def)
  next
    case False
    have "\<forall>i < length done. succeeds env (db_served ?s1 + i)"
    proof (intro allI impI)
      fix i assume "i < length done"
      then have "Suc i < length (operation # done)" by simp
      then have "succeeds env (db_served s + Suc i)" using Cons.prems(3) by blast
      then show "succeeds env (db_served ?s1 + i)" by (simp add: served)
    qed
    then have "run env (PerformNextOperation (done @ rest) cb ?s1) =
               run env (OnOperationCommitted rest cb True (after_all done rest cb ?s1))"
      using Cons.IH [of ?s1] Cons.prems(1,2) False by simp
    then show ?thesis
      using first False by (simp add: OnOperationCommitted_next after_all_Cons)
  qed
qed

lemma Run_confirmation_after_all:
  "Run_confirmation cb b (after_all done rest cb s) =
   s\<lparr>db_entries := fold apply_operation done (db_entries s),
     db_served := db_served s + length done,
     trace := trace s @ committed_trace done rest cb @ [ConfirmationRun cb b]\<rparr>"
  by (simp add: Run_confirmation_def after_all_def)

lemma run_single_commit:
  assumes "quiescent s" "recognised (op_type operation)"
  shows "run env (CommitContentMutation [operation] cb s) =
         Run_confirmation cb (succeeds env (db_served s)) (after_commit env operation [] cb s)"
proof -
  have "run env (CommitContentMutation [operation] cb s) =
        run env (PerformNextOperation [operation] cb s)"
    by (simp add: CommitContentMutation_def Empty_def)
  also have "\<dots> = run env (OnOperationCommitted [] cb (succeeds env (db_served s))
                              (after_commit env operation [] cb s))"
    using assms by (rule run_commit_step)
  also have "\<dots> = Run_confirmation cb (succeeds env (db_served s)) (after_commit env operation [] cb s)"
    using assms(1) by (simp add: OnOperationCommitted_done run_quiescent)
  finally show ?thesis .
qed

lemma confirmations_append [simp]:
  "confirmations (xs @ ys) = confirmations xs @ confirmations ys"
  by (induction xs rule: confirmations.induct) simp_all

lemma trace_Run_confirmation:
  "trace (Run_confirmation cb b s) = trace s @ [ConfirmationRun cb b]"
  by (simp add: Run_confirmation_def)

lemma trace_after_commit:
  "trace (after_commit env operation m cb s) =
   trace s @ [Dispatched (request_for operation m cb), Completed (UpdateReply (succeeds env (db_served s)))]"
  by (simp add: after_commit_def)

lemma trace_OnLoadEntriesForLoadContent:
  "OnLoadEntriesForLoadContent cb success content s =
   s\<lparr>trace := trace s @ [ContentLoadRun cb success (to_results content)]\<rparr>"
  by (simp add: OnLoadEntriesForLoadContent_def to_results_def)

lemma to_results_Nil: "(to_results content = []) = (content = [])"
  by (simp add: to_results_def)

lemma run_load_succeeds:
  assumes "quiescent s" "succeeds env (db_served s)"
  shows "run env (dispatch (LoadEntriesWithFilter f opts [] (Bind_OnLoadEntriesForLoadContent cb)) s) =
         s\<lparr>db_served := Suc (db_served s),
           trace := trace s @
             [Dispatched (LoadEntriesWithFilter f opts [] (Bind_OnLoadEntriesForLoadContent cb)),
              Completed (LoadReply True (map snd (filter (\<lambda>e. f (fst e)) (db_entries s)))),
              ContentLoadRun cb True (to_results (map snd (filter (\<lambda>e. f (fst e)) (db_entries s))))]\<rparr>"
proof -
  let ?request = "LoadEntriesWithFilter f opts [] (Bind_OnLoadEntriesForLoadContent cb)"
  let ?result = "s\<lparr>db_served := Suc (db_served s),
           trace := trace s @
             [Dispatched ?request,
              Completed (LoadReply True (map snd (filter (\<lambda>e. f (fst e)) (db_entries s)))),
              ContentLoadRun cb True (to_results (map snd (filter (\<lambda>e. f (fst e)) (db_entries s))))]\<rparr>"
  have "step env (dispatch ?request s) = ?result"
    using assms
    by (cases s) (simp add: step_def dispatch_def quiescent_def serve_def complete_def
          OnLoadEntriesForLoadContent_def to_results_def StartsWith_empty)
  moreover have "quiescent ?result"
    using assms(1) by (simp add: quiescent_def)
  ultimately show ?thesis
    by (simp add: run_step run_quiescent)
qed

lemma run_load_fails:
  assumes "quiescent s" "\<not> succeeds env (db_served s)"
  shows "run env (dispatch (LoadEntriesWithFilter f opts p (Bind_OnLoadEntriesForLoadContent cb)) s) =
         s\<lparr>db_served := Suc (db_served s),
           trace := trace s @
             [Dispatched (LoadEntriesWithFilter f opts p (Bind_OnLoadEntriesForLoadContent cb)),
              Completed (LoadReply False (failed_entries env)),
              ContentLoadRun cb False (to_results (failed_entries env))]\<rparr>"
proof -
  let ?request = "LoadEntriesWithFilter f opts p (Bind_OnLoadEntriesForLoadContent cb)"
  let ?result = "s\<lparr>db_served := Suc (db_served s),
           trace := trace s @
             [Dispatched ?request,
              Completed (LoadReply False (failed_entries env)),
              ContentLoadRun cb False (to_results (failed_entries env))]\<rparr>"
  have "step env (dispatch ?request s) = ?result"
    using assms
    by (cases s) (simp add: step_def dispatch_def quiescent_def serve_def complete_def
          OnLoadEntriesForLoadContent_def to_results_def)
  moreover have "quiescent ?result"
    using assms(1) by (simp add: quiescent_def)
  ultimately show ?thesis
    by (simp add: run_step run_quiescent)
qed

lemma run_load_keys_succeeds:
  assumes "quiescent s" "succeeds env (db_served s)"
  shows "run env (LoadAllContentKeys cb s) =
         s\<lparr>db_served := Suc (db_served s),
           trace := trace s @
             [Dispatched (LoadKeys (Bind_OnLoadKeysForLoadAllContentKeys cb)),
              Completed (KeysReply True (map fst (db_entries s))),
              ContentKeyRun cb True (map fst (db_entries s))]\<rparr>"
proof -
  let ?result = "s\<lparr>db_served := Suc (db_served s),
           trace := trace s @
             [Dispatched (LoadKeys (Bind_OnLoadKeysForLoadAllContentKeys cb)),
              Completed (KeysReply True (map fst (db_entries s))),
              ContentKeyRun cb True (map fst (db_entries s))]\<rparr>"
  have "step env (LoadAllContentKeys cb s) = ?result"
    using assms
    by (cases s) (simp add: LoadAllContentKeys_def step_def dispatch_def quiescent_def serve_def
          complete_def OnLoadKeysForLoadAllContentKeys_def)
  moreover have "quiescent ?result"
    using assms(1) by (simp add: quiescent_def)
  moreover have "\<not> quiescent (LoadAllContentKeys cb s)"
    by (simp add: LoadAllContentKeys_def)
  ultimately show ?thesis
    by (simp add: run_step run_quiescent)
qed

lemma run_LoadContentByPrefix_succeeds:
  assumes "quiescent s" "succeeds env (db_served s)"
  shows "run env (LoadContentByPrefix p cb s) =
         s\<lparr>db_served := Suc (db_served s),
           trace := trace s @
             [Dispatched (LoadEntriesWithFilter (DatabasePrefixFilter p) CreateReadOptions []
                            (Bind_OnLoadEntriesForLoadContent cb)),
              Completed (LoadReply True (map snd (filter (\<lambda>e. prefix p (fst e)) (db_entries s)))),
              ContentLoadRun cb True
                (to_results (map snd (filter (\<lambda>e. prefix p (fst e)) (db_entries s))))]\<rparr>"
  using run_load_succeeds [OF assms, of "DatabasePrefixFilter p" CreateReadOptions cb]
  by (simp add: LoadContentByPrefix_def DatabasePrefixFilter_prefix)

lemma run_LoadContent_succeeds:
  assumes "quiescent s" "succeeds env (db_served s)"
  shows "run env (LoadContent keys cb s) =
         s\<lparr>db_served := Suc (db_served s),
           trace := trace s @
             [Dispatched (LoadEntriesWithFilter (DatabaseKeyFilter (set keys)) CreateReadOptions []
                            (Bind_OnLoadEntriesForLoadContent cb)),
              Completed (LoadReply True (map snd (filter (\<lambda>e. fst e \<in> set keys) (db_entries s)))),
              ContentLoadRun cb True
                (to_results (map snd (filter (\<lambda>e. fst e \<in> set keys) (db_entries s))))]\<rparr>"
  using run_load_succeeds [OF assms, of "DatabaseKeyFilter (set keys)" CreateReadOptions cb]
  by (simp add: LoadContent_def DatabaseKeyFilter_def)

lemma run_lifetime_quiescent: "quiescent s \<Longrightarrow> run_lifetime life env s = s"
  by (simp add: run_lifetime.simps)

lemma run_lifetime_step:
  "\<not> quiescent s \<Longrightarrow> run_lifetime life env s = run_lifetime (life - 1) env (step_weak (0 < life) env s)"
  by (subst run_lifetime.simps) simp

lemma run_lifetime_outlives: "weight s \<le> life \<Longrightarrow> run_lifetime life env s = run env s"
proof (induction env s arbitrary: life rule: run.induct)
  case (1 env s)
  show ?case
  proof (cases "quiescent s")
    case True
    then show ?thesis by (simp add: run_quiescent run_lifetime_quiescent)
  next
    case False
    have less: "weight (step env s) < weight s" using False by (rule step_decreases)
    with "1.prems" have pos: "0 < life" and le: "weight (step env s) \<le> life - 1" by simp_all
    have "run_lifetime life env s = run_lifetime (life - 1) env (step env s)"
      using False pos by (simp add: run_lifetime_step step_weak_alive)
    also have "\<dots> = run env (step env s)"
      using "1.IH" [OF False le] .
    also have "\<dots> = run env s"
      using False by (simp add: run_step)
    finally show ?thesis .
  qed
qed

lemma weight_quiescent: "quiescent s \<Longrightarrow> weight s = 0"
  by (simp add: quiescent_def weight_def)

lemma step_weak_dispatch_request_for:
  assumes "quiescent s" "recognised (op_type operation)"
  shows "step_weak alive env (dispatch (request_for operation m cb) s) =
         (if alive
          then OnOperationCommitted m cb (succeeds env (db_served s)) (after_commit env operation m cb s)
          else after_commit env operation m cb s)"
  using assms
  by (cases s) (simp add: step_weak_def complete_weak_def dispatch_def quiescent_def
        serve_request_for complete_request_for after_commit_def)

lemma run_lifetime_PostTask:
  assumes "quiescent s"
  shows "run_lifetime life env (PostTask (RunConfirmation cb b) s) = Run_confirmation cb b s"
proof -
  have "step_weak (0 < life) env (PostTask (RunConfirmation cb b) s) = Run_confirmation cb b s"
    using assms
    by (cases s) (simp add: step_weak_def PostTask_def quiescent_def run_task_def Run_confirmation_def)
  then show ?thesis
    using assms by (simp add: run_lifetime_step run_lifetime_quiescent)
qed

lemma db_served_after_commit: "db_served (after_commit env operation m cb s) = Suc (db_served s)"
  by (simp add: after_commit_def)

lemma perform_lifetime_trace:
  assumes "quiescent s" "m \<noteq> []"
  shows "trace (run_lifetime life env (PerformNextOperation m cb s)) =
         trace s @ lifetime_events life env (db_served s) m cb"
  using assms
proof (induction m arbitrary: s life)
  case Nil
  then show ?case by simp
next
  case (Cons operation m)
  show ?case
  proof (cases "recognised (op_type operation)")
    case False
    with Cons.prems(1) show ?thesis
      by (simp add: PerformNextOperation_unrecognised run_lifetime_PostTask trace_Run_confirmation)
  next
    case True
    let ?ok = "succeeds env (db_served s)"
    let ?s1 = "after_commit env operation m cb s"
    have q1: "quiescent ?s1" using Cons.prems(1) by simp
    have t1: "trace ?s1 = trace s @ [Dispatched (request_for operation m cb), Completed (UpdateReply ?ok)]"
      by (rule trace_after_commit)
    have first: "run_lifetime life env (PerformNextOperation (operation # m) cb s) =
                 run_lifetime (life - 1) env
                   (if 0 < life then OnOperationCommitted m cb ?ok ?s1 else ?s1)"
      using Cons.prems(1) True
      by (simp add: PerformNextOperation_recognised run_lifetime_step step_weak_dispatch_request_for)
    show ?thesis
    proof (cases "life = 0")
      case True
      then have "run_lifetime life env (PerformNextOperation (operation # m) cb s) = ?s1"
        using first q1 by (simp add: run_lifetime_quiescent)
      then show ?thesis
        using \<open>recognised (op_type operation)\<close> True by (simp add: t1)
    next
      case False
      then have alive: "run_lifetime life env (PerformNextOperation (operation # m) cb s) =
                        run_lifetime (life - 1) env (OnOperationCommitted m cb ?ok ?s1)"
        using first by simp
      show ?thesis
      proof (cases "?ok \<and> m \<noteq> []")
        case False
        then have "OnOperationCommitted m cb ?ok ?s1 = Run_confirmation cb ?ok ?s1"
          by (auto simp: OnOperationCommitted_def Empty_def)
        then have "run_lifetime life env (PerformNextOperation (operation # m) cb s) =
                   Run_confirmation cb ?ok ?s1"
          using alive q1 by (simp only: run_lifetime_quiescent quiescent_Run_confirmation)
        then have "trace (run_lifetime life env (PerformNextOperation (operation # m) cb s)) =
                   trace s @ [Dispatched (request_for operation m cb), Completed (UpdateReply ?ok),
                              ConfirmationRun cb ?ok]"
          by (simp only: trace_Run_confirmation t1 append_assoc) simp
        moreover have "lifetime_events life env (db_served s) (operation # m) cb =
                       [Dispatched (request_for operation m cb), Completed (UpdateReply ?ok),
                        ConfirmationRun cb ?ok]"
          using False \<open>recognised (op_type operation)\<close> \<open>life \<noteq> 0\<close>
          by (cases m) auto
        ultimately show ?thesis by simp
      next
        case True
        then have "OnOperationCommitted m cb ?ok ?s1 = PerformNextOperation m cb ?s1"
          by (simp add: OnOperationCommitted_def Empty_def)
        then have "trace (run_lifetime life env (PerformNextOperation (operation # m) cb s)) =
                   trace ?s1 @ lifetime_events (life - 1) env (db_served ?s1) m cb"
          using alive Cons.IH [OF q1, of "life - 1"] True by simp
        then show ?thesis
          using True \<open>recognised (op_type operation)\<close> \<open>life \<noteq> 0\<close>
          by (simp add: t1 db_served_after_commit)
      qed
    qed
  qed
qed

lemma commit_lifetime_trace:
  assumes "quiescent s"
  shows "trace (run_lifetime life env (CommitContentMutation m cb s)) =
         trace s @ lifetime_events life env (db_served s) m cb"
proof (cases "m = []")
  case True
  with assms show ?thesis
    by (simp add: CommitContentMutation_def Empty_def run_lifetime_PostTask trace_Run_confirmation)
next
  case False
  then have "CommitContentMutation m cb s = PerformNextOperation m cb s"
    by (simp add: CommitContentMutation_def Empty_def)
  then show ?thesis
    using perform_lifetime_trace [OF assms False] by simp
qed

lemma lifetime_events_outlives:
  "length m \<le> life \<Longrightarrow> lifetime_events life env n m cb = commit_events env n m cb"
  by (induction m arbitrary: life n) auto

lemma confirmations_commit_events:
  "confirmations (commit_events env n m cb) = [(cb, path_flag (perform_path env n m))]"
  by (induction m arbitrary: n) auto

lemma confirmations_lifetime_events:
  "confirmations (lifetime_events life env n m cb) = []
   \<or> confirmations (lifetime_events life env n m cb) = [(cb, path_flag (perform_path env n m))]"
  by (induction m arbitrary: life n) auto

lemma path_flag_terminal_path:
  "path_flag (terminal_path env n m) = path_flag (perform_path env n m)"
  by (cases m) (simp_all add: terminal_path_def)

lemma weight_commit:
  assumes "quiescent s" "m \<noteq> []"
  shows "weight (CommitContentMutation m cb s) \<le> length m"
proof -
  have "weight (OnOperationCommitted m cb True s) \<le> weight s + length m"
    by (rule weight_OnOperationCommitted)
  moreover have "OnOperationCommitted m cb True s = CommitContentMutation m cb s"
    using assms(2) by (simp add: OnOperationCommitted_def CommitContentMutation_def Empty_def)
  ultimately show ?thesis using assms(1) by (simp add: weight_quiescent)
qed

lemma commit_outlives:
  assumes "quiescent s" "length m \<le> life"
  shows "run_lifetime life env (CommitContentMutation m cb s) = run env (CommitContentMutation m cb s)"
proof (cases "m = []")
  case True
  with assms(1) show ?thesis
    by (simp add: CommitContentMutation_def Empty_def run_lifetime_PostTask run_PostTask)
next
  case False
  have "weight (CommitContentMutation m cb s) \<le> length m"
    using assms(1) False by (rule weight_commit)
  with assms(2) have "weight (CommitContentMutation m cb s) \<le> life" by simp
  then show ?thesis by (rule run_lifetime_outlives)
qed

lemma run_lifetime_destroyed_commit:
  assumes "quiescent s" "recognised (op_type operation)"
  shows "run_lifetime 0 env (CommitContentMutation (operation # remaining) cb s) =
         after_commit env operation remaining cb s"
proof -
  have "CommitContentMutation (operation # remaining) cb s =
        dispatch (request_for operation remaining cb) s"
    using assms(2) by (simp add: CommitContentMutation_def Empty_def PerformNextOperation_recognised)
  moreover have "step_weak False env (dispatch (request_for operation remaining cb) s) =
                 after_commit env operation remaining cb s"
    using assms by (simp add: step_weak_dispatch_request_for)
  ultimately show ?thesis
    using assms(1) by (simp add: run_lifetime_step run_lifetime_quiescent)
qed

section \<open>Committing a mutation\<close>

text \<open>
  C1. For every non-empty mutation whose operations are all of a recognised type, committed
  from a state with nothing posted or pending, when each of the store requests it causes
  succeeds: the run hands the operations to the store one at a time in the order of the
  mutation, each request following the completion of the one before
  (\<open>committed_trace\<close>); the records end up as the operations applied in that order;
  as many requests were served as the mutation has operations; and the last event is the
  confirmation callback run with true.
\<close>

theorem commit_all_succeed:
  assumes "content_mutation \<noteq> []"
    and "\<forall>operation \<in> set content_mutation. recognised (op_type operation)"
    and "quiescent s"
    and "\<forall>i < length content_mutation. succeeds env (db_served s + i)"
  shows "run env (CommitContentMutation content_mutation callback s) =
         s\<lparr>db_entries := fold apply_operation content_mutation (db_entries s),
           db_served := db_served s + length content_mutation,
           trace := trace s @ committed_trace content_mutation [] callback
                    @ [ConfirmationRun callback True]\<rparr>"
proof -
  have "run env (CommitContentMutation content_mutation callback s) =
        run env (PerformNextOperation (content_mutation @ []) callback s)"
    using assms(1) by (simp add: CommitContentMutation_def Empty_def)
  also have "\<dots> = run env (OnOperationCommitted [] callback True
                              (after_all content_mutation [] callback s))"
    using assms by (intro run_committed) simp_all
  also have "\<dots> = Run_confirmation callback True (after_all content_mutation [] callback s)"
    using assms(3) by (simp add: OnOperationCommitted_done run_quiescent)
  finally show ?thesis
    by (simp add: Run_confirmation_after_all)
qed

theorem commit_all_succeed_witness:
  "run always_succeeds
     (CommitContentMutation [CreateUpsertOperation ''a'' ''1'', CreateDeleteOperation ''b'',
                             CreateUpsertOperation ''b'' ''2''] 7 (opened [])) =
   (opened [])
     \<lparr>db_entries := [(''a'', \<lparr>proto_key = ''a'', proto_content_data = ''1''\<rparr>),
                     (''b'', \<lparr>proto_key = ''b'', proto_content_data = ''2''\<rparr>)],
      db_served := 4,
      trace := [Dispatched (Init Bind_OnDatabaseInitialized), Completed (InitReply kOK),
                Dispatched (UpdateEntries [(''a'', \<lparr>proto_key = ''a'', proto_content_data = ''1''\<rparr>)] []
                   (Bind_OnOperationCommitted [CreateDeleteOperation ''b'', CreateUpsertOperation ''b'' ''2''] 7)),
                Completed (UpdateReply True),
                Dispatched (UpdateEntries [] [''b'']
                   (Bind_OnOperationCommitted [CreateUpsertOperation ''b'' ''2''] 7)),
                Completed (UpdateReply True),
                Dispatched (UpdateEntries [(''b'', \<lparr>proto_key = ''b'', proto_content_data = ''2''\<rparr>)] []
                   (Bind_OnOperationCommitted [] 7)),
                Completed (UpdateReply True),
                ConfirmationRun 7 True]\<rparr>"
proof -
  let ?m = "[CreateUpsertOperation ''a'' ''1'', CreateDeleteOperation ''b'',
             CreateUpsertOperation ''b'' ''2'']"
  have h1: "?m \<noteq> []" by simp
  have h2: "\<forall>operation \<in> set ?m. recognised (op_type operation)"
    by (simp add: CreateUpsertOperation_def CreateDeleteOperation_def)
  have h3: "quiescent (opened [])" by simp
  have h4: "\<forall>i < length ?m. succeeds always_succeeds (db_served (opened []) + i)"
    by (simp add: always_succeeds_def)
  show ?thesis
    unfolding commit_all_succeed [OF h1 h2 h3 h4]
    by (simp add: opened_def apply_operation_def request_for_def put_entry_def remove_key_def
        CreateUpsertOperation_def CreateDeleteOperation_def)
qed

text \<open>
  C2. When the operations \<open>done\<close> succeed and the store fails the request of the next
  operation, \<open>failing\<close>: the run ends right after that completion with the
  confirmation callback run with false; nothing of \<open>rest\<close> is handed to the store (the
  trace ends there and the store served one request more than \<open>done\<close> has
  operations); and the records are those the operations \<open>done\<close> produced, so what
  was committed stays.
\<close>

theorem commit_first_failure:
  assumes "quiescent s"
    and "\<forall>operation \<in> set done. recognised (op_type operation)"
    and "recognised (op_type failing)"
    and "\<forall>i < length done. succeeds env (db_served s + i)"
    and "\<not> succeeds env (db_served s + length done)"
  shows "run env (CommitContentMutation (done @ failing # rest) callback s) =
         s\<lparr>db_entries := fold apply_operation done (db_entries s),
           db_served := db_served s + length done + 1,
           trace := trace s @ committed_trace done (failing # rest) callback
                    @ [Dispatched (request_for failing rest callback),
                       Completed (UpdateReply False),
                       ConfirmationRun callback False]\<rparr>"
proof -
  let ?sk = "after_all done (failing # rest) callback s"
  have served: "db_served ?sk = db_served s + length done"
    by (simp add: after_all_def)
  have "run env (CommitContentMutation (done @ failing # rest) callback s) =
        run env (PerformNextOperation (done @ failing # rest) callback s)"
    by (simp add: CommitContentMutation_def Empty_def)
  also have "\<dots> = run env (OnOperationCommitted (failing # rest) callback True ?sk)"
    using assms(1,2,4) by (intro run_committed) simp_all
  also have "\<dots> = run env (PerformNextOperation (failing # rest) callback ?sk)"
    by (simp add: OnOperationCommitted_next)
  also have "\<dots> = run env (OnOperationCommitted rest callback False
                              (after_commit env failing rest callback ?sk))"
    using assms(1,3,5) by (simp add: run_commit_step served)
  also have "\<dots> = Run_confirmation callback False (after_commit env failing rest callback ?sk)"
    using assms(1) by (simp add: OnOperationCommitted_failed run_quiescent)
  finally show ?thesis
    using assms(5) by (simp add: Run_confirmation_def after_commit_def after_all_def)
qed

theorem commit_first_failure_witness:
  "run (fails_at 2)
     (CommitContentMutation [CreateUpsertOperation ''x'' ''1'', CreateDeleteAllOperation,
                             CreateUpsertOperation ''y'' ''2''] 7 (opened [])) =
   (opened [])
     \<lparr>db_entries := [(''x'', \<lparr>proto_key = ''x'', proto_content_data = ''1''\<rparr>)],
      db_served := 3,
      trace := [Dispatched (Init Bind_OnDatabaseInitialized), Completed (InitReply kOK),
                Dispatched (UpdateEntries [(''x'', \<lparr>proto_key = ''x'', proto_content_data = ''1''\<rparr>)] []
                   (Bind_OnOperationCommitted [CreateDeleteAllOperation, CreateUpsertOperation ''y'' ''2''] 7)),
                Completed (UpdateReply True),
                Dispatched (UpdateEntriesWithRemoveFilter [] (DatabasePrefixFilter [])
                   (Bind_OnOperationCommitted [CreateUpsertOperation ''y'' ''2''] 7)),
                Completed (UpdateReply False),
                ConfirmationRun 7 False]\<rparr>"
proof -
  let ?done = "[CreateUpsertOperation ''x'' ''1'']"
  have h1: "quiescent (opened [])" by simp
  have h2: "\<forall>operation \<in> set ?done. recognised (op_type operation)"
    by (simp add: CreateUpsertOperation_def)
  have h3: "recognised (op_type CreateDeleteAllOperation)"
    by (simp add: CreateDeleteAllOperation_def)
  have h4: "\<forall>i < length ?done. succeeds (fails_at 2) (db_served (opened []) + i)"
    by (simp add: fails_at_def opened_def)
  have h5: "\<not> succeeds (fails_at 2) (db_served (opened []) + length ?done)"
    by (simp add: fails_at_def opened_def)
  show ?thesis
    using commit_first_failure [OF h1 h2 h3 h4 h5, of "[CreateUpsertOperation ''y'' ''2'']" 7]
    by (simp add: opened_def apply_operation_def request_for_def put_entry_def
        CreateUpsertOperation_def CreateDeleteAllOperation_def)
qed

text \<open>
  C3. Committing an empty mutation posts the confirmation callback with true and changes
  nothing else: no request reaches the store and the trace is as it was. From a state with
  nothing posted or pending, the run then consists of that callback run with true.
\<close>

theorem commit_empty:
  "CommitContentMutation [] callback s = s\<lparr>task_queue := task_queue s @ [RunConfirmation callback True]\<rparr>
   \<and> (quiescent s \<longrightarrow>
        run env (CommitContentMutation [] callback s) = s\<lparr>trace := trace s @ [ConfirmationRun callback True]\<rparr>)"
  by (simp add: CommitContentMutation_def Empty_def run_PostTask)
     (simp add: PostTask_def Run_confirmation_def)

theorem commit_empty_witness:
  "CommitContentMutation [] 7 (opened []) = (opened [])\<lparr>task_queue := [RunConfirmation 7 True]\<rparr>
   \<and> quiescent (opened [])
   \<and> run always_succeeds (CommitContentMutation [] 7 (opened [])) =
       (opened [])\<lparr>trace := [Dispatched (Init Bind_OnDatabaseInitialized), Completed (InitReply kOK),
                              ConfirmationRun 7 True]\<rparr>"
proof -
  have q: "quiescent (opened [])" by simp
  note th = commit_empty [of 7 "opened []" always_succeeds]
  have a: "CommitContentMutation [] 7 (opened []) =
           (opened [])\<lparr>task_queue := task_queue (opened []) @ [RunConfirmation 7 True]\<rparr>"
    using th by (rule conjunct1)
  have b: "run always_succeeds (CommitContentMutation [] 7 (opened [])) =
           (opened [])\<lparr>trace := trace (opened []) @ [ConfirmationRun 7 True]\<rparr>"
    using th q by blast
  have a': "CommitContentMutation [] 7 (opened []) = (opened [])\<lparr>task_queue := [RunConfirmation 7 True]\<rparr>"
    using a by (simp add: opened_def)
  have b': "run always_succeeds (CommitContentMutation [] 7 (opened [])) =
       (opened [])\<lparr>trace := [Dispatched (Init Bind_OnDatabaseInitialized), Completed (InitReply kOK),
                              ConfirmationRun 7 True]\<rparr>"
    using b by (simp add: opened_def)
  from a' q b' show ?thesis by (intro conjI)
qed

text \<open>
  C4, as stated, does not hold. The object is destroyed right after
  \<open>CommitContentMutation\<close> returns, while the request of the one operation is with the
  store: the store carries out the write, the completion is dropped, and the confirmation
  callback is never run.
\<close>

theorem destroyed_never_confirms:
  "run_lifetime 0 always_succeeds
     (CommitContentMutation [CreateUpsertOperation ''a'' ''1''] 7 (opened [])) =
   (opened [])
     \<lparr>db_entries := [(''a'', \<lparr>proto_key = ''a'', proto_content_data = ''1''\<rparr>)],
      db_served := 2,
      trace := [Dispatched (Init Bind_OnDatabaseInitialized), Completed (InitReply kOK),
                Dispatched (UpdateEntries [(''a'', \<lparr>proto_key = ''a'', proto_content_data = ''1''\<rparr>)] []
                   (Bind_OnOperationCommitted [] 7)),
                Completed (UpdateReply True)]\<rparr>
   \<and> confirmations (trace (run_lifetime 0 always_succeeds
        (CommitContentMutation [CreateUpsertOperation ''a'' ''1''] 7 (opened [])))) = []"
proof -
  have q: "quiescent (opened [])" by simp
  have r: "recognised (op_type (CreateUpsertOperation ''a'' ''1''))"
    by (simp add: CreateUpsertOperation_def)
  have e: "run_lifetime 0 always_succeeds
             (CommitContentMutation [CreateUpsertOperation ''a'' ''1''] 7 (opened [])) =
           (opened [])
             \<lparr>db_entries := [(''a'', \<lparr>proto_key = ''a'', proto_content_data = ''1''\<rparr>)],
              db_served := 2,
              trace := [Dispatched (Init Bind_OnDatabaseInitialized), Completed (InitReply kOK),
                        Dispatched (UpdateEntries [(''a'', \<lparr>proto_key = ''a'', proto_content_data = ''1''\<rparr>)] []
                           (Bind_OnOperationCommitted [] 7)),
                        Completed (UpdateReply True)]\<rparr>"
    unfolding run_lifetime_destroyed_commit [OF q r]
    by (simp add: after_commit_def always_succeeds_def opened_def apply_operation_def
        request_for_def put_entry_def CreateUpsertOperation_def)
  show ?thesis
    unfolding e by simp
qed

text \<open>
  C4, amended. For every mutation committed from a state with nothing posted or pending,
  whatever the store answers and whenever the object is destroyed, the confirmation
  callback is run at most once, never twice, and when it is run it receives the flag of the
  terminal path (\<open>terminal_path\<close>: true for the empty mutation and for all operations
  committed, false for the first failure and for an unrecognised operation). The run's
  events are \<open>lifetime_events\<close>. When the object outlives the commit (it lives for at
  least as many turns as the mutation has operations), the events are
  \<open>commit_events\<close>, which end in exactly one run of the callback with that flag, and
  nothing is left posted or pending.
\<close>

theorem confirmation_at_most_once:
  assumes "quiescent s"
  shows "trace (run_lifetime life env (CommitContentMutation content_mutation callback s)) =
           trace s @ lifetime_events life env (db_served s) content_mutation callback
       \<and> (confirmations (lifetime_events life env (db_served s) content_mutation callback) = []
          \<or> confirmations (lifetime_events life env (db_served s) content_mutation callback) =
              [(callback, path_flag (terminal_path env (db_served s) content_mutation))])
       \<and> (length content_mutation \<le> life \<longrightarrow>
            run_lifetime life env (CommitContentMutation content_mutation callback s) =
              run env (CommitContentMutation content_mutation callback s))
       \<and> trace (run env (CommitContentMutation content_mutation callback s)) =
           trace s @ commit_events env (db_served s) content_mutation callback
       \<and> confirmations (commit_events env (db_served s) content_mutation callback) =
           [(callback, path_flag (terminal_path env (db_served s) content_mutation))]
       \<and> quiescent (run env (CommitContentMutation content_mutation callback s))"
proof (intro conjI impI)
  show "trace (run_lifetime life env (CommitContentMutation content_mutation callback s)) =
        trace s @ lifetime_events life env (db_served s) content_mutation callback"
    using assms by (rule commit_lifetime_trace)
  show "confirmations (lifetime_events life env (db_served s) content_mutation callback) = []
        \<or> confirmations (lifetime_events life env (db_served s) content_mutation callback) =
            [(callback, path_flag (terminal_path env (db_served s) content_mutation))]"
    using confirmations_lifetime_events [of life env "db_served s" content_mutation callback]
    by (simp only: path_flag_terminal_path)
  show "quiescent (run env (CommitContentMutation content_mutation callback s))"
    by (rule run_ends_quiescent)
  show "confirmations (commit_events env (db_served s) content_mutation callback) =
        [(callback, path_flag (terminal_path env (db_served s) content_mutation))]"
    by (simp only: confirmations_commit_events path_flag_terminal_path)
  have "run env (CommitContentMutation content_mutation callback s) =
        run_lifetime (length content_mutation) env (CommitContentMutation content_mutation callback s)"
    using commit_outlives [OF assms order_refl] by simp
  then have "trace (run env (CommitContentMutation content_mutation callback s)) =
        trace s @ lifetime_events (length content_mutation) env (db_served s) content_mutation callback"
    using commit_lifetime_trace [OF assms] by simp
  then show "trace (run env (CommitContentMutation content_mutation callback s)) =
        trace s @ commit_events env (db_served s) content_mutation callback"
    by (simp add: lifetime_events_outlives)
next
  assume "length content_mutation \<le> life"
  with assms show "run_lifetime life env (CommitContentMutation content_mutation callback s) =
                   run env (CommitContentMutation content_mutation callback s)"
    by (rule commit_outlives)
qed

theorem confirmation_at_most_once_witness:
  "trace (run_lifetime 1 (fails_at 2)
            (CommitContentMutation [CreateUpsertOperation ''x'' ''1'', CreateDeleteOperation ''x''] 7
               (opened []))) =
     trace (opened []) @
       [Dispatched (UpdateEntries [(''x'', \<lparr>proto_key = ''x'', proto_content_data = ''1''\<rparr>)] []
                      (Bind_OnOperationCommitted [CreateDeleteOperation ''x''] 7)),
        Completed (UpdateReply True),
        Dispatched (UpdateEntries [] [''x''] (Bind_OnOperationCommitted [] 7)),
        Completed (UpdateReply False)]
   \<and> trace (run (fails_at 2)
            (CommitContentMutation [CreateUpsertOperation ''x'' ''1'', CreateDeleteOperation ''x''] 7
               (opened []))) =
     trace (opened []) @
       [Dispatched (UpdateEntries [(''x'', \<lparr>proto_key = ''x'', proto_content_data = ''1''\<rparr>)] []
                      (Bind_OnOperationCommitted [CreateDeleteOperation ''x''] 7)),
        Completed (UpdateReply True),
        Dispatched (UpdateEntries [] [''x''] (Bind_OnOperationCommitted [] 7)),
        Completed (UpdateReply False),
        ConfirmationRun 7 False]
   \<and> terminal_path (fails_at 2) 1 [CreateUpsertOperation ''x'' ''1'', CreateDeleteOperation ''x''] =
       FirstFailure
   \<and> run_lifetime 2 (fails_at 2)
         (CommitContentMutation [CreateUpsertOperation ''x'' ''1'', CreateDeleteOperation ''x''] 7
            (opened [])) =
       run (fails_at 2)
         (CommitContentMutation [CreateUpsertOperation ''x'' ''1'', CreateDeleteOperation ''x''] 7
            (opened []))"
proof -
  let ?m = "[CreateUpsertOperation ''x'' ''1'', CreateDeleteOperation ''x'']"
  have q: "quiescent (opened [])" by simp
  have n: "db_served (opened []) = 1" by (simp add: opened_def)
  note th1 = confirmation_at_most_once [OF q, of 1 "fails_at 2" ?m 7]
  note th2 = confirmation_at_most_once [OF q, of 2 "fails_at 2" ?m 7]
  have a: "trace (run_lifetime 1 (fails_at 2) (CommitContentMutation ?m 7 (opened []))) =
           trace (opened []) @
             [Dispatched (UpdateEntries [(''x'', \<lparr>proto_key = ''x'', proto_content_data = ''1''\<rparr>)] []
                            (Bind_OnOperationCommitted [CreateDeleteOperation ''x''] 7)),
              Completed (UpdateReply True),
              Dispatched (UpdateEntries [] [''x''] (Bind_OnOperationCommitted [] 7)),
              Completed (UpdateReply False)]"
    unfolding th1 [THEN conjunct1] n
    by (simp add: fails_at_def request_for_def CreateUpsertOperation_def CreateDeleteOperation_def)
  have b: "trace (run (fails_at 2) (CommitContentMutation ?m 7 (opened []))) =
           trace (opened []) @
             [Dispatched (UpdateEntries [(''x'', \<lparr>proto_key = ''x'', proto_content_data = ''1''\<rparr>)] []
                            (Bind_OnOperationCommitted [CreateDeleteOperation ''x''] 7)),
              Completed (UpdateReply True),
              Dispatched (UpdateEntries [] [''x''] (Bind_OnOperationCommitted [] 7)),
              Completed (UpdateReply False),
              ConfirmationRun 7 False]"
    unfolding th1 [THEN conjunct2, THEN conjunct2, THEN conjunct2, THEN conjunct1] n
    by (simp add: fails_at_def request_for_def CreateUpsertOperation_def CreateDeleteOperation_def)
  have c: "terminal_path (fails_at 2) 1 ?m = FirstFailure"
    by (simp add: terminal_path_def fails_at_def CreateUpsertOperation_def CreateDeleteOperation_def)
  have "length ?m \<le> 2" by simp
  with th2 [THEN conjunct2, THEN conjunct2, THEN conjunct1]
  have d: "run_lifetime 2 (fails_at 2) (CommitContentMutation ?m 7 (opened [])) =
           run (fails_at 2) (CommitContentMutation ?m 7 (opened []))"
    by (rule mp)
  show ?thesis by (intro conjI a b c d)
qed

text \<open>
  C8. When the first operation has a type tag that is none of the four recognised ones, the
  dispatcher posts the confirmation callback with false and changes nothing else: no request
  reaches the store. From a state with nothing posted or pending, the run then consists of
  that callback run with false.
\<close>

theorem unrecognised_fails:
  assumes "\<not> recognised (op_type operation)"
  shows "PerformNextOperation (operation # remaining) callback s =
           s\<lparr>task_queue := task_queue s @ [RunConfirmation callback False]\<rparr>
         \<and> (quiescent s \<longrightarrow>
              run env (PerformNextOperation (operation # remaining) callback s) =
                s\<lparr>trace := trace s @ [ConfirmationRun callback False]\<rparr>)"
  using assms
  by (simp add: PerformNextOperation_unrecognised run_PostTask)
     (simp add: PostTask_def Run_confirmation_def)

theorem unrecognised_fails_witness:
  "\<not> recognised (CONTENT_UNRECOGNIZED 4)
   \<and> PerformNextOperation [\<lparr>op_type = CONTENT_UNRECOGNIZED 4, op_key = ''a'', op_value = ''1'', op_prefix = []\<rparr>,
                             CreateDeleteAllOperation] 7 (opened []) =
       (opened [])\<lparr>task_queue := [RunConfirmation 7 False]\<rparr>
   \<and> run always_succeeds
         (PerformNextOperation [\<lparr>op_type = CONTENT_UNRECOGNIZED 4, op_key = ''a'', op_value = ''1'', op_prefix = []\<rparr>,
                                CreateDeleteAllOperation] 7 (opened [])) =
       (opened [])\<lparr>trace := [Dispatched (Init Bind_OnDatabaseInitialized), Completed (InitReply kOK),
                              ConfirmationRun 7 False]\<rparr>"
proof -
  let ?operation = "\<lparr>op_type = CONTENT_UNRECOGNIZED 4, op_key = ''a'', op_value = ''1'', op_prefix = []\<rparr>"
  have q: "quiescent (opened [])" by simp
  have u: "\<not> recognised (op_type ?operation)" by simp
  note th = unrecognised_fails [OF u, of "[CreateDeleteAllOperation]" 7 "opened []" always_succeeds]
  have a: "PerformNextOperation [?operation, CreateDeleteAllOperation] 7 (opened []) =
           (opened [])\<lparr>task_queue := task_queue (opened []) @ [RunConfirmation 7 False]\<rparr>"
    using th by (rule conjunct1)
  have b: "run always_succeeds (PerformNextOperation [?operation, CreateDeleteAllOperation] 7 (opened [])) =
           (opened [])\<lparr>trace := trace (opened []) @ [ConfirmationRun 7 False]\<rparr>"
    using th q by blast
  have a': "PerformNextOperation [?operation, CreateDeleteAllOperation] 7 (opened []) =
            (opened [])\<lparr>task_queue := [RunConfirmation 7 False]\<rparr>"
    using a by (simp add: opened_def)
  have b': "run always_succeeds (PerformNextOperation [?operation, CreateDeleteAllOperation] 7 (opened [])) =
            (opened [])\<lparr>trace := [Dispatched (Init Bind_OnDatabaseInitialized), Completed (InitReply kOK),
                                   ConfirmationRun 7 False]\<rparr>"
    using b by (simp add: opened_def)
  have u': "\<not> recognised (CONTENT_UNRECOGNIZED 4)" by simp
  from u' a' b' show ?thesis by (intro conjI)
qed

section \<open>Deleting everything and deleting by prefix\<close>

lemma apply_delete_all:
  "op_type operation = CONTENT_DELETE_ALL \<Longrightarrow> apply_operation operation entries = []"
  by (simp add: apply_operation_def)

lemma apply_delete_by_empty_prefix:
  "op_type operation = CONTENT_DELETE_BY_PREFIX \<Longrightarrow> op_prefix operation = [] \<Longrightarrow>
   apply_operation operation entries = []"
  by (simp add: apply_operation_def)

lemma keys_after_emptying:
  assumes "quiescent s" "recognised (op_type operation)"
    and "apply_operation operation (db_entries s) = []"
    and "succeeds env (db_served s)" "succeeds env (Suc (db_served s))"
  shows "db_entries (run env (CommitContentMutation [operation] cb s)) = []
       \<and> trace (run env (LoadAllContentKeys kcb (run env (CommitContentMutation [operation] cb s)))) =
           trace (run env (CommitContentMutation [operation] cb s)) @
             [Dispatched (LoadKeys (Bind_OnLoadKeysForLoadAllContentKeys kcb)),
              Completed (KeysReply True []), ContentKeyRun kcb True []]"
proof -
  let ?s1 = "run env (CommitContentMutation [operation] cb s)"
  have s1: "?s1 = Run_confirmation cb True (after_commit env operation [] cb s)"
    using assms(1,2,4) by (simp add: run_single_commit)
  have e1: "db_entries ?s1 = []"
    unfolding s1 using assms(3,4) by (simp add: Run_confirmation_def after_commit_def)
  have q1: "quiescent ?s1" by (rule run_ends_quiescent)
  have n1: "db_served ?s1 = Suc (db_served s)"
    unfolding s1 by (simp add: Run_confirmation_def after_commit_def)
  have "succeeds env (db_served ?s1)"
    using assms(5) by (simp only: n1)
  from run_load_keys_succeeds [OF q1 this, of kcb]
  have "trace (run env (LoadAllContentKeys kcb ?s1)) =
        trace ?s1 @ [Dispatched (LoadKeys (Bind_OnLoadKeysForLoadAllContentKeys kcb)),
                     Completed (KeysReply True (map fst (db_entries ?s1))),
                     ContentKeyRun kcb True (map fst (db_entries ?s1))]"
    by simp
  then show ?thesis using e1 by simp
qed

text \<open>
  C5. A delete-all operation and a delete-by-prefix operation with the empty prefix are
  dispatched as the very same request: a bulk delete with no entries to save and the prefix
  filter bound to the empty prefix, which accepts every key. So the two leave the system
  in the same state; and when the delete and a following load of all keys succeed, no
  record is left and the key callback receives the empty list.
\<close>

theorem delete_all_is_delete_by_empty_prefix:
  assumes "op_type delete_all = CONTENT_DELETE_ALL"
    and "op_type delete_by_prefix = CONTENT_DELETE_BY_PREFIX"
    and "op_prefix delete_by_prefix = []"
  shows "PerformNextOperation (delete_all # remaining) callback s =
           PerformNextOperation (delete_by_prefix # remaining) callback s
       \<and> PerformNextOperation (delete_all # remaining) callback s =
           dispatch (UpdateEntriesWithRemoveFilter [] (DatabasePrefixFilter [])
                       (Bind_OnOperationCommitted remaining callback)) s
       \<and> (\<forall>k. DatabasePrefixFilter [] k)
       \<and> (quiescent s \<and> succeeds env (db_served s) \<and> succeeds env (Suc (db_served s)) \<longrightarrow>
            (\<forall>operation \<in> {delete_all, delete_by_prefix}.
               db_entries (run env (CommitContentMutation [operation] callback s)) = []
             \<and> trace (run env (LoadAllContentKeys key_callback
                                 (run env (CommitContentMutation [operation] callback s)))) =
                 trace (run env (CommitContentMutation [operation] callback s)) @
                   [Dispatched (LoadKeys (Bind_OnLoadKeysForLoadAllContentKeys key_callback)),
                    Completed (KeysReply True []),
                    ContentKeyRun key_callback True []]))"
proof (intro conjI allI impI ballI)
  show "PerformNextOperation (delete_all # remaining) callback s =
        PerformNextOperation (delete_by_prefix # remaining) callback s"
    using assms
    by (simp add: PerformNextOperation_delete_all PerformNextOperation_delete_by_prefix)
next
  show "PerformNextOperation (delete_all # remaining) callback s =
        dispatch (UpdateEntriesWithRemoveFilter [] (DatabasePrefixFilter [])
                    (Bind_OnOperationCommitted remaining callback)) s"
    using assms(1) by (rule PerformNextOperation_delete_all)
next
  fix k show "DatabasePrefixFilter [] k" by (rule DatabasePrefixFilter_empty)
next
  fix operation
  assume run: "quiescent s \<and> succeeds env (db_served s) \<and> succeeds env (Suc (db_served s))"
    and which: "operation \<in> {delete_all, delete_by_prefix}"
  have rec: "recognised (op_type operation)"
    using which assms(1,2) by auto
  have empties: "apply_operation operation (db_entries s) = []"
    using which assms by (auto simp: apply_delete_all apply_delete_by_empty_prefix)
  note both = keys_after_emptying [of s operation env callback key_callback, OF _ rec empties]
  show "db_entries (run env (CommitContentMutation [operation] callback s)) = []"
    using both run by blast
  show "trace (run env (LoadAllContentKeys key_callback
                          (run env (CommitContentMutation [operation] callback s)))) =
        trace (run env (CommitContentMutation [operation] callback s)) @
          [Dispatched (LoadKeys (Bind_OnLoadKeysForLoadAllContentKeys key_callback)),
           Completed (KeysReply True []),
           ContentKeyRun key_callback True []]"
    using both run by blast
qed

theorem delete_all_is_delete_by_empty_prefix_witness:
  "PerformNextOperation [CreateDeleteAllOperation] 7
     (opened [(''a'', \<lparr>proto_key = ''a'', proto_content_data = ''1''\<rparr>),
              (''b'', \<lparr>proto_key = ''b'', proto_content_data = ''2''\<rparr>)]) =
   PerformNextOperation [CreateDeleteByPrefixOperation []] 7
     (opened [(''a'', \<lparr>proto_key = ''a'', proto_content_data = ''1''\<rparr>),
              (''b'', \<lparr>proto_key = ''b'', proto_content_data = ''2''\<rparr>)])
   \<and> db_entries (run always_succeeds (CommitContentMutation [CreateDeleteAllOperation] 7
        (opened [(''a'', \<lparr>proto_key = ''a'', proto_content_data = ''1''\<rparr>),
                 (''b'', \<lparr>proto_key = ''b'', proto_content_data = ''2''\<rparr>)]))) = []
   \<and> db_entries (run always_succeeds (CommitContentMutation [CreateDeleteByPrefixOperation []] 7
        (opened [(''a'', \<lparr>proto_key = ''a'', proto_content_data = ''1''\<rparr>),
                 (''b'', \<lparr>proto_key = ''b'', proto_content_data = ''2''\<rparr>)]))) = []
   \<and> last (trace (run always_succeeds (LoadAllContentKeys 8
        (run always_succeeds (CommitContentMutation [CreateDeleteAllOperation] 7
          (opened [(''a'', \<lparr>proto_key = ''a'', proto_content_data = ''1''\<rparr>),
                   (''b'', \<lparr>proto_key = ''b'', proto_content_data = ''2''\<rparr>)])))))) =
       ContentKeyRun 8 True []
   \<and> last (trace (run always_succeeds (LoadAllContentKeys 8
        (run always_succeeds (CommitContentMutation [CreateDeleteByPrefixOperation []] 7
          (opened [(''a'', \<lparr>proto_key = ''a'', proto_content_data = ''1''\<rparr>),
                   (''b'', \<lparr>proto_key = ''b'', proto_content_data = ''2''\<rparr>)])))))) =
       ContentKeyRun 8 True []"
proof -
  let ?s = "opened [(''a'', \<lparr>proto_key = ''a'', proto_content_data = ''1''\<rparr>),
                    (''b'', \<lparr>proto_key = ''b'', proto_content_data = ''2''\<rparr>)]"
  have h1: "op_type CreateDeleteAllOperation = CONTENT_DELETE_ALL"
    by (simp add: CreateDeleteAllOperation_def)
  have h2: "op_type (CreateDeleteByPrefixOperation []) = CONTENT_DELETE_BY_PREFIX"
    by (simp add: CreateDeleteByPrefixOperation_def)
  have h3: "op_prefix (CreateDeleteByPrefixOperation []) = []"
    by (simp add: CreateDeleteByPrefixOperation_def)
  have h4: "quiescent ?s \<and> succeeds always_succeeds (db_served ?s)
            \<and> succeeds always_succeeds (Suc (db_served ?s))"
    by (simp add: always_succeeds_def)
  note th = delete_all_is_delete_by_empty_prefix [OF h1 h2 h3, of "[]" 7 ?s always_succeeds 8]
  from th have same: "PerformNextOperation [CreateDeleteAllOperation] 7 ?s =
                      PerformNextOperation [CreateDeleteByPrefixOperation []] 7 ?s"
    by (rule conjunct1)
  from th h4 have each: "\<forall>operation \<in> {CreateDeleteAllOperation, CreateDeleteByPrefixOperation []}.
       db_entries (run always_succeeds (CommitContentMutation [operation] 7 ?s)) = []
     \<and> trace (run always_succeeds (LoadAllContentKeys 8
                 (run always_succeeds (CommitContentMutation [operation] 7 ?s)))) =
         trace (run always_succeeds (CommitContentMutation [operation] 7 ?s)) @
           [Dispatched (LoadKeys (Bind_OnLoadKeysForLoadAllContentKeys 8)),
            Completed (KeysReply True []),
            ContentKeyRun 8 True []]"
    by blast
  from same each show ?thesis by simp
qed

lemma entries_after_delete_by_prefix:
  assumes "quiescent s" "succeeds env (db_served s)"
  shows "db_entries (run env (CommitContentMutation [CreateDeleteByPrefixOperation p] cb s)) =
         filter (\<lambda>e. \<not> prefix p (fst e)) (db_entries s)"
proof -
  have "recognised (op_type (CreateDeleteByPrefixOperation p))"
    by (simp add: CreateDeleteByPrefixOperation_def)
  from run_single_commit [OF assms(1) this, of env cb] show ?thesis
    using assms(2)
    by (simp add: Run_confirmation_def after_commit_def apply_operation_def
        CreateDeleteByPrefixOperation_def)
qed

lemma loaded_keys:
  assumes "\<forall>e \<in> set entries. proto_key (snd e) = fst e"
  shows "fst ` set (to_results (map snd (filter (\<lambda>e. P (fst e)) entries))) =
         {k \<in> fst ` set entries. P k}"
  using assms by (force simp: to_results_def image_iff)

lemma deleted_keys:
  "fst ` set entries - fst ` set (filter (\<lambda>e. \<not> P (fst e)) entries) = {k \<in> fst ` set entries. P k}"
  by (force simp: image_iff)

text \<open>
  C6. The prefix filter accepts a key exactly when the key is the prefix followed by
  something (byte for byte, so case matters), and the empty prefix accepts every key. The
  read by prefix and the delete by prefix hand the store the same filter,
  \<open>DatabasePrefixFilter\<close> bound to the prefix. Hence, where every record is stored
  under its own key and the requests succeed, the keys a read by prefix delivers are the
  stored keys with that prefix, and they are the keys a delete by the same prefix removes.
\<close>

theorem prefix_filter_shared:
  "DatabasePrefixFilter key_prefix k = (\<exists>rest. k = key_prefix @ rest)
   \<and> DatabasePrefixFilter [] k
   \<and> LoadContentByPrefix key_prefix load_callback s =
       dispatch (LoadEntriesWithFilter (DatabasePrefixFilter key_prefix) CreateReadOptions []
                   (Bind_OnLoadEntriesForLoadContent load_callback)) s
   \<and> DeleteContentByPrefix operation remaining callback s =
       dispatch (UpdateEntriesWithRemoveFilter [] (DatabasePrefixFilter (op_prefix operation))
                   (Bind_OnOperationCommitted remaining callback)) s
   \<and> (quiescent s \<and> succeeds env (db_served s)
        \<and> (\<forall>e \<in> set (db_entries s). proto_key (snd e) = fst e) \<longrightarrow>
        (\<exists>content.
           trace (run env (LoadContentByPrefix key_prefix load_callback s)) =
             trace s @
               [Dispatched (LoadEntriesWithFilter (DatabasePrefixFilter key_prefix) CreateReadOptions []
                              (Bind_OnLoadEntriesForLoadContent load_callback)),
                Completed (LoadReply True content),
                ContentLoadRun load_callback True (to_results content)]
           \<and> fst ` set (to_results content) = {k \<in> fst ` set (db_entries s). prefix key_prefix k}
           \<and> fst ` set (db_entries s)
               - fst ` set (db_entries (run env (CommitContentMutation
                                                 [CreateDeleteByPrefixOperation key_prefix] callback s)))
             = fst ` set (to_results content)))"
proof (intro conjI impI)
  show "DatabasePrefixFilter key_prefix k = (\<exists>rest. k = key_prefix @ rest)"
    by (simp add: DatabasePrefixFilter_prefix prefix_def)
  show "DatabasePrefixFilter [] k"
    by (rule DatabasePrefixFilter_empty)
  show "LoadContentByPrefix key_prefix load_callback s =
        dispatch (LoadEntriesWithFilter (DatabasePrefixFilter key_prefix) CreateReadOptions []
                    (Bind_OnLoadEntriesForLoadContent load_callback)) s"
    by (simp add: LoadContentByPrefix_def)
  show "DeleteContentByPrefix operation remaining callback s =
        dispatch (UpdateEntriesWithRemoveFilter [] (DatabasePrefixFilter (op_prefix operation))
                    (Bind_OnOperationCommitted remaining callback)) s"
    by (simp add: DeleteContentByPrefix_def)
next
  assume h: "quiescent s \<and> succeeds env (db_served s)
             \<and> (\<forall>e \<in> set (db_entries s). proto_key (snd e) = fst e)"
  let ?content = "map snd (filter (\<lambda>e. prefix key_prefix (fst e)) (db_entries s))"
  have q: "quiescent s" and ok: "succeeds env (db_served s)"
    and own: "\<forall>e \<in> set (db_entries s). proto_key (snd e) = fst e"
    using h by blast+
  have t: "trace (run env (LoadContentByPrefix key_prefix load_callback s)) =
        trace s @
          [Dispatched (LoadEntriesWithFilter (DatabasePrefixFilter key_prefix) CreateReadOptions []
                         (Bind_OnLoadEntriesForLoadContent load_callback)),
           Completed (LoadReply True ?content),
           ContentLoadRun load_callback True (to_results ?content)]"
    by (simp add: run_LoadContentByPrefix_succeeds [OF q ok])
  have l: "fst ` set (to_results ?content) = {k \<in> fst ` set (db_entries s). prefix key_prefix k}"
    using own by (rule loaded_keys)
  have d: "fst ` set (db_entries s)
           - fst ` set (db_entries (run env (CommitContentMutation
                                             [CreateDeleteByPrefixOperation key_prefix] callback s)))
           = fst ` set (to_results ?content)"
    by (simp only: entries_after_delete_by_prefix [OF q ok] deleted_keys l)
  from t l d show "\<exists>content.
           trace (run env (LoadContentByPrefix key_prefix load_callback s)) =
             trace s @
               [Dispatched (LoadEntriesWithFilter (DatabasePrefixFilter key_prefix) CreateReadOptions []
                              (Bind_OnLoadEntriesForLoadContent load_callback)),
                Completed (LoadReply True content),
                ContentLoadRun load_callback True (to_results content)]
           \<and> fst ` set (to_results content) = {k \<in> fst ` set (db_entries s). prefix key_prefix k}
           \<and> fst ` set (db_entries s)
               - fst ` set (db_entries (run env (CommitContentMutation
                                                 [CreateDeleteByPrefixOperation key_prefix] callback s)))
             = fst ` set (to_results content)"
    by blast
qed

theorem prefix_filter_shared_witness:
  "DatabasePrefixFilter ''a'' ''ab''
   \<and> \<not> DatabasePrefixFilter ''a'' ''Ab''
   \<and> \<not> DatabasePrefixFilter ''ab'' ''a''
   \<and> (\<exists>content.
         trace (run always_succeeds (LoadContentByPrefix ''a'' 8
                  (opened [(''ab'', \<lparr>proto_key = ''ab'', proto_content_data = ''1''\<rparr>),
                           (''b'', \<lparr>proto_key = ''b'', proto_content_data = ''2''\<rparr>),
                           (''a'', \<lparr>proto_key = ''a'', proto_content_data = ''3''\<rparr>)]))) =
           trace (opened []) @
             [Dispatched (LoadEntriesWithFilter (DatabasePrefixFilter ''a'') CreateReadOptions []
                            (Bind_OnLoadEntriesForLoadContent 8)),
              Completed (LoadReply True content),
              ContentLoadRun 8 True (to_results content)]
         \<and> fst ` set (to_results content) = {''ab'', ''a''}
         \<and> {''ab'', ''b'', ''a''}
             - fst ` set (db_entries (run always_succeeds (CommitContentMutation
                   [CreateDeleteByPrefixOperation ''a''] 7
                   (opened [(''ab'', \<lparr>proto_key = ''ab'', proto_content_data = ''1''\<rparr>),
                            (''b'', \<lparr>proto_key = ''b'', proto_content_data = ''2''\<rparr>),
                            (''a'', \<lparr>proto_key = ''a'', proto_content_data = ''3''\<rparr>)]))))
           = fst ` set (to_results content))"
proof -
  let ?stored = "[(''ab'', \<lparr>proto_key = ''ab'', proto_content_data = ''1''\<rparr>),
                  (''b'', \<lparr>proto_key = ''b'', proto_content_data = ''2''\<rparr>),
                  (''a'', \<lparr>proto_key = ''a'', proto_content_data = ''3''\<rparr>)]"
  let ?s = "opened ?stored"
  have h1: "quiescent ?s" by simp
  have h2: "succeeds always_succeeds (db_served ?s)" by (simp add: always_succeeds_def)
  have h3: "\<forall>e \<in> set (db_entries ?s). proto_key (snd e) = fst e" by (simp add: opened_def)
  have keys: "fst ` set (db_entries ?s) = {''ab'', ''b'', ''a''}"
    by (simp add: opened_def)
  have "{k \<in> set [''ab'', ''b'', ''a'']. prefix ''a'' k} = set (filter (prefix ''a'') [''ab'', ''b'', ''a''])"
    by (simp only: set_filter)
  also have "\<dots> = {''ab'', ''a''}" by simp
  finally have matching: "{k \<in> {''ab'', ''b'', ''a''}. prefix ''a'' k} = {''ab'', ''a''}" by simp
  have tr: "trace ?s = trace (opened [])"
    by (simp add: opened_def)
  note th = prefix_filter_shared [of _ _ 8 ?s _ _ 7 always_succeeds]
  have a: "DatabasePrefixFilter ''a'' ''ab''"
    using th [of "''a''" "''ab''", THEN conjunct1] by simp
  have b: "\<not> DatabasePrefixFilter ''a'' ''Ab''"
    using th [of "''a''" "''Ab''", THEN conjunct1] by simp
  have c: "\<not> DatabasePrefixFilter ''ab'' ''a''"
    using th [of "''ab''" "''a''", THEN conjunct1] by simp
  note imp = th [of "''a''" "''ab''", THEN conjunct2, THEN conjunct2, THEN conjunct2, THEN conjunct2]
  have hyps: "quiescent ?s \<and> succeeds always_succeeds (db_served ?s)
        \<and> (\<forall>e \<in> set (db_entries ?s). proto_key (snd e) = fst e)"
    by (intro conjI h1 h2 h3)
  note ex = mp [OF imp hyps]
  from ex obtain content where
    t: "trace (run always_succeeds (LoadContentByPrefix ''a'' 8 ?s)) =
         trace ?s @
           [Dispatched (LoadEntriesWithFilter (DatabasePrefixFilter ''a'') CreateReadOptions []
                          (Bind_OnLoadEntriesForLoadContent 8)),
            Completed (LoadReply True content),
            ContentLoadRun 8 True (to_results content)]"
    and l: "fst ` set (to_results content) = {k \<in> fst ` set (db_entries ?s). prefix ''a'' k}"
    and d: "fst ` set (db_entries ?s)
             - fst ` set (db_entries (run always_succeeds (CommitContentMutation
                   [CreateDeleteByPrefixOperation ''a''] 7 ?s)))
           = fst ` set (to_results content)"
    by (elim exE conjE)
  have t': "trace (run always_succeeds (LoadContentByPrefix ''a'' 8 ?s)) =
         trace (opened []) @
           [Dispatched (LoadEntriesWithFilter (DatabasePrefixFilter ''a'') CreateReadOptions []
                          (Bind_OnLoadEntriesForLoadContent 8)),
            Completed (LoadReply True content),
            ContentLoadRun 8 True (to_results content)]"
    using t by (simp only: tr)
  have l': "fst ` set (to_results content) = {''ab'', ''a''}"
    using l by (simp only: keys matching)
  have d': "{''ab'', ''b'', ''a''}
             - fst ` set (db_entries (run always_succeeds (CommitContentMutation
                   [CreateDeleteByPrefixOperation ''a''] 7 ?s)))
           = fst ` set (to_results content)"
    using d by (simp only: keys)
  have ex': "\<exists>content.
         trace (run always_succeeds (LoadContentByPrefix ''a'' 8 ?s)) =
           trace (opened []) @
             [Dispatched (LoadEntriesWithFilter (DatabasePrefixFilter ''a'') CreateReadOptions []
                            (Bind_OnLoadEntriesForLoadContent 8)),
              Completed (LoadReply True content),
              ContentLoadRun 8 True (to_results content)]
         \<and> fst ` set (to_results content) = {''ab'', ''a''}
         \<and> {''ab'', ''b'', ''a''}
             - fst ` set (db_entries (run always_succeeds (CommitContentMutation
                   [CreateDeleteByPrefixOperation ''a''] 7 ?s)))
           = fst ` set (to_results content)"
    by (intro exI [of _ content] conjI t' l' d')
  show ?thesis by (intro conjI a b c ex')
qed

section \<open>Reading\<close>

text \<open>
  C7, as stated, does not hold: \<open>OnLoadEntriesForLoadContent\<close> converts whatever vector
  comes with the completion, also when the flag is false. Here the store fails the load of
  key \<open>a\<close> and hands over the record it holds for it; the callback receives false
  together with that record.
\<close>

theorem failed_load_nonempty_results:
  "OnLoadEntriesForLoadContent 7 False [\<lparr>proto_key = ''a'', proto_content_data = ''1''\<rparr>] (opened []) =
     (opened [])\<lparr>trace := trace (opened []) @ [ContentLoadRun 7 False [(''a'', ''1'')]]\<rparr>
   \<and> last (trace (run ((fails_at 1)\<lparr>failed_entries := [\<lparr>proto_key = ''a'', proto_content_data = ''1''\<rparr>]\<rparr>)
                   (LoadContent [''a''] 7
                      (opened [(''a'', \<lparr>proto_key = ''a'', proto_content_data = ''1''\<rparr>)])))) =
       ContentLoadRun 7 False [(''a'', ''1'')]"
proof -
  let ?env = "(fails_at 1)\<lparr>failed_entries := [\<lparr>proto_key = ''a'', proto_content_data = ''1''\<rparr>]\<rparr>"
  let ?s = "opened [(''a'', \<lparr>proto_key = ''a'', proto_content_data = ''1''\<rparr>)]"
  have q: "quiescent ?s" by simp
  have f: "\<not> succeeds ?env (db_served ?s)"
    by (simp add: fails_at_def opened_def)
  have "last (trace (run ?env (LoadContent [''a''] 7 ?s))) =
        ContentLoadRun 7 False (to_results (failed_entries ?env))"
    unfolding LoadContent_def Let_def run_load_fails [OF q f] by simp
  then show ?thesis
    by (simp add: trace_OnLoadEntriesForLoadContent to_results_def)
qed

text \<open>
  C7, amended. For every read request (\<open>LoadContent\<close>, \<open>LoadContentByPrefix\<close>)
  whose load the store fails, the callback receives the store's failure flag together with
  the records the store handed over with that completion, converted one for one and not
  filtered or cleared: the result collection is empty exactly when the store handed over
  no record.
\<close>

theorem failed_load_passes_store_vector:
  assumes "quiescent s" "\<not> succeeds env (db_served s)"
  shows "trace (run env (LoadContent keys callback s)) =
           trace s @
             [Dispatched (LoadEntriesWithFilter (DatabaseKeyFilter (set keys)) CreateReadOptions []
                            (Bind_OnLoadEntriesForLoadContent callback)),
              Completed (LoadReply False (failed_entries env)),
              ContentLoadRun callback False (to_results (failed_entries env))]
       \<and> trace (run env (LoadContentByPrefix key_prefix callback s)) =
           trace s @
             [Dispatched (LoadEntriesWithFilter (DatabasePrefixFilter key_prefix) CreateReadOptions []
                            (Bind_OnLoadEntriesForLoadContent callback)),
              Completed (LoadReply False (failed_entries env)),
              ContentLoadRun callback False (to_results (failed_entries env))]
       \<and> OnLoadEntriesForLoadContent callback success content s =
           s\<lparr>trace := trace s @ [ContentLoadRun callback success (to_results content)]\<rparr>
       \<and> length (to_results content) = length content
       \<and> (to_results (failed_entries env) = []) = (failed_entries env = [])"
proof (intro conjI)
  show "trace (run env (LoadContent keys callback s)) =
           trace s @
             [Dispatched (LoadEntriesWithFilter (DatabaseKeyFilter (set keys)) CreateReadOptions []
                            (Bind_OnLoadEntriesForLoadContent callback)),
              Completed (LoadReply False (failed_entries env)),
              ContentLoadRun callback False (to_results (failed_entries env))]"
    unfolding LoadContent_def Let_def run_load_fails [OF assms] by simp
  show "trace (run env (LoadContentByPrefix key_prefix callback s)) =
           trace s @
             [Dispatched (LoadEntriesWithFilter (DatabasePrefixFilter key_prefix) CreateReadOptions []
                            (Bind_OnLoadEntriesForLoadContent callback)),
              Completed (LoadReply False (failed_entries env)),
              ContentLoadRun callback False (to_results (failed_entries env))]"
    unfolding LoadContentByPrefix_def run_load_fails [OF assms] by simp
  show "OnLoadEntriesForLoadContent callback success content s =
           s\<lparr>trace := trace s @ [ContentLoadRun callback success (to_results content)]\<rparr>"
    by (rule trace_OnLoadEntriesForLoadContent)
  show "length (to_results content) = length content"
    by (simp add: to_results_def)
  show "(to_results (failed_entries env) = []) = (failed_entries env = [])"
    by (rule to_results_Nil)
qed

theorem failed_load_passes_store_vector_witness:
  "last (trace (run (fails_at 1) (LoadContent [''a''] 7
       (opened [(''a'', \<lparr>proto_key = ''a'', proto_content_data = ''1''\<rparr>)])))) =
     ContentLoadRun 7 False []
   \<and> last (trace (run (fails_at 1) (LoadContentByPrefix ''a'' 7
       (opened [(''a'', \<lparr>proto_key = ''a'', proto_content_data = ''1''\<rparr>)])))) =
     ContentLoadRun 7 False []"
proof -
  let ?s = "opened [(''a'', \<lparr>proto_key = ''a'', proto_content_data = ''1''\<rparr>)]"
  have q: "quiescent ?s" by simp
  have f: "\<not> succeeds (fails_at 1) (db_served ?s)"
    by (simp add: fails_at_def opened_def)
  have e: "to_results (failed_entries (fails_at 1)) = []"
    by (simp add: to_results_def fails_at_def)
  note th = failed_load_passes_store_vector [OF q f, of "[''a'']" 7 "''a''"]
  from th have "last (trace (run (fails_at 1) (LoadContent [''a''] 7 ?s))) =
                ContentLoadRun 7 False (to_results (failed_entries (fails_at 1)))"
    by simp
  moreover from th have "last (trace (run (fails_at 1) (LoadContentByPrefix ''a'' 7 ?s))) =
                ContentLoadRun 7 False (to_results (failed_entries (fails_at 1)))"
    by simp
  ultimately show ?thesis by (simp only: e) 
qed

text \<open>
  C10. \<open>LoadContent\<close> depends on its key list only through the set of its keys: two
  lists with the same set (one a permutation of the other, or with keys repeated) give the
  same request and so the same run; a successful load delivers the records whose key is in
  that set, in the store's order.
\<close>

theorem load_content_depends_on_key_set:
  assumes "set keys = set keys'"
  shows "LoadContent keys callback s = LoadContent keys' callback s
       \<and> run env (LoadContent keys callback s) = run env (LoadContent keys' callback s)
       \<and> (quiescent s \<and> succeeds env (db_served s) \<longrightarrow>
            last (trace (run env (LoadContent keys callback s))) =
              ContentLoadRun callback True
                (to_results (map snd (filter (\<lambda>e. fst e \<in> set keys') (db_entries s)))))"
proof (intro conjI impI)
  show same: "LoadContent keys callback s = LoadContent keys' callback s"
    using assms by (simp add: LoadContent_def)
  then show "run env (LoadContent keys callback s) = run env (LoadContent keys' callback s)"
    by (rule arg_cong)
next
  assume h: "quiescent s \<and> succeeds env (db_served s)"
  then have q: "quiescent s" and ok: "succeeds env (db_served s)" by (rule conjunct1, rule conjunct2)
  show "last (trace (run env (LoadContent keys callback s))) =
        ContentLoadRun callback True
          (to_results (map snd (filter (\<lambda>e. fst e \<in> set keys') (db_entries s))))"
    unfolding run_LoadContent_succeeds [OF q ok] assms by simp
qed

theorem load_content_depends_on_key_set_witness:
  "LoadContent [''b'', ''a'', ''b''] 8
     (opened [(''a'', \<lparr>proto_key = ''a'', proto_content_data = ''1''\<rparr>),
              (''c'', \<lparr>proto_key = ''c'', proto_content_data = ''3''\<rparr>),
              (''b'', \<lparr>proto_key = ''b'', proto_content_data = ''2''\<rparr>)]) =
   LoadContent [''a'', ''b''] 8
     (opened [(''a'', \<lparr>proto_key = ''a'', proto_content_data = ''1''\<rparr>),
              (''c'', \<lparr>proto_key = ''c'', proto_content_data = ''3''\<rparr>),
              (''b'', \<lparr>proto_key = ''b'', proto_content_data = ''2''\<rparr>)])
   \<and> last (trace (run always_succeeds (LoadContent [''b'', ''a'', ''b''] 8
        (opened [(''a'', \<lparr>proto_key = ''a'', proto_content_data = ''1''\<rparr>),
                 (''c'', \<lparr>proto_key = ''c'', proto_content_data = ''3''\<rparr>),
                 (''b'', \<lparr>proto_key = ''b'', proto_content_data = ''2''\<rparr>)])))) =
       ContentLoadRun 8 True [(''a'', ''1''), (''b'', ''2'')]"
proof -
  let ?s = "opened [(''a'', \<lparr>proto_key = ''a'', proto_content_data = ''1''\<rparr>),
                    (''c'', \<lparr>proto_key = ''c'', proto_content_data = ''3''\<rparr>),
                    (''b'', \<lparr>proto_key = ''b'', proto_content_data = ''2''\<rparr>)]"
  have eq: "set [''b'', ''a'', ''b''] = set [''a'', ''b'']" by auto
  have hyps: "quiescent ?s \<and> succeeds always_succeeds (db_served ?s)"
    by (simp add: always_succeeds_def)
  note th = load_content_depends_on_key_set [OF eq, of 8 ?s always_succeeds]
  have a: "LoadContent [''b'', ''a'', ''b''] 8 ?s = LoadContent [''a'', ''b''] 8 ?s"
    using th by (rule conjunct1)
  note l = mp [OF th [THEN conjunct2, THEN conjunct2] hyps]
  have b: "last (trace (run always_succeeds (LoadContent [''b'', ''a'', ''b''] 8 ?s))) =
           ContentLoadRun 8 True [(''a'', ''1''), (''b'', ''2'')]"
    unfolding l by (simp add: opened_def to_results_def)
  show ?thesis by (intro conjI a b)
qed

section \<open>Requests before the store is ready\<close>

text \<open>
  C9, as stated, does not hold. Right after construction the state is
  \<open>kNotInitialized\<close> and the store has not yet answered the \<open>Init\<close> request; a
  mutation committed then is handed to the store at once, as if the store were ready:
  it is not held back in a queue of the program's and no callback is posted or run to
  reject it. A read behaves the same way.
\<close>

theorem not_ready_request_is_forwarded:
  "database_status (FeedContentDatabase []) = kNotInitialized
   \<and> \<not> IsInitialized (FeedContentDatabase [])
   \<and> CommitContentMutation [CreateUpsertOperation ''a'' ''1''] 7 (FeedContentDatabase []) =
       (FeedContentDatabase [])
         \<lparr>db_requests :=
            [Init Bind_OnDatabaseInitialized,
             UpdateEntries [(''a'', \<lparr>proto_key = ''a'', proto_content_data = ''1''\<rparr>)] []
               (Bind_OnOperationCommitted [] 7)],
          trace :=
            [Dispatched (Init Bind_OnDatabaseInitialized),
             Dispatched (UpdateEntries [(''a'', \<lparr>proto_key = ''a'', proto_content_data = ''1''\<rparr>)] []
               (Bind_OnOperationCommitted [] 7))]\<rparr>
   \<and> task_queue (CommitContentMutation [CreateUpsertOperation ''a'' ''1''] 7 (FeedContentDatabase [])) = []
   \<and> length (db_requests (LoadContent [''a''] 8 (FeedContentDatabase []))) = 2
   \<and> task_queue (LoadContent [''a''] 8 (FeedContentDatabase [])) = []"
  by (simp add: FeedContentDatabase_def IsInitialized_def CommitContentMutation_def Empty_def
      PerformNextOperation_def UpsertContent_def CreateUpsertOperation_def dispatch_def
      LoadContent_def Let_def)

lemma dispatch_status:
  "dispatch request (s\<lparr>database_status := status\<rparr>) = (dispatch request s)\<lparr>database_status := status\<rparr>"
  by (simp add: dispatch_def)

lemma PostTask_status:
  "PostTask task (s\<lparr>database_status := status\<rparr>) = (PostTask task s)\<lparr>database_status := status\<rparr>"
  by (simp add: PostTask_def)

lemma PerformNextOperation_status:
  "PerformNextOperation m cb (s\<lparr>database_status := status\<rparr>) =
   (PerformNextOperation m cb s)\<lparr>database_status := status\<rparr>"
  by (simp add: PerformNextOperation_def DeleteContent_def DeleteContentByPrefix_def
      UpsertContent_def DeleteAllContent_def Let_def dispatch_status PostTask_status
      split: list.splits OperationType.splits)

text \<open>
  C9, amended. No request looks at the initialization state: a mutation or a read issued in
  any state does what it does when the state is \<open>kOK\<close>. Each read hands exactly one
  request to the store at once, and so does a mutation that starts with an operation of a
  recognised type, posting nothing. The program itself neither queues nor rejects a request
  made before readiness; the one policy, forwarding to the store, is the same for reads and
  writes, and the outcome is what the store answers.
\<close>

theorem requests_ignore_readiness:
  "CommitContentMutation content_mutation callback (s\<lparr>database_status := status\<rparr>) =
     (CommitContentMutation content_mutation callback s)\<lparr>database_status := status\<rparr>
   \<and> LoadContent keys load_callback (s\<lparr>database_status := status\<rparr>) =
     (LoadContent keys load_callback s)\<lparr>database_status := status\<rparr>
   \<and> LoadContentByPrefix key_prefix load_callback (s\<lparr>database_status := status\<rparr>) =
     (LoadContentByPrefix key_prefix load_callback s)\<lparr>database_status := status\<rparr>
   \<and> LoadAllContentKeys key_callback (s\<lparr>database_status := status\<rparr>) =
     (LoadAllContentKeys key_callback s)\<lparr>database_status := status\<rparr>
   \<and> db_requests (LoadContent keys load_callback s) =
       db_requests s @ [LoadEntriesWithFilter (DatabaseKeyFilter (set keys)) CreateReadOptions []
                          (Bind_OnLoadEntriesForLoadContent load_callback)]
   \<and> db_requests (LoadContentByPrefix key_prefix load_callback s) =
       db_requests s @ [LoadEntriesWithFilter (DatabasePrefixFilter key_prefix) CreateReadOptions []
                          (Bind_OnLoadEntriesForLoadContent load_callback)]
   \<and> db_requests (LoadAllContentKeys key_callback s) =
       db_requests s @ [LoadKeys (Bind_OnLoadKeysForLoadAllContentKeys key_callback)]
   \<and> (recognised (op_type operation) \<longrightarrow>
        db_requests (CommitContentMutation (operation # remaining) callback s) =
          db_requests s @ [request_for operation remaining callback]
        \<and> task_queue (CommitContentMutation (operation # remaining) callback s) = task_queue s)"
proof (intro conjI impI)
  show "CommitContentMutation content_mutation callback (s\<lparr>database_status := status\<rparr>) =
        (CommitContentMutation content_mutation callback s)\<lparr>database_status := status\<rparr>"
    by (simp add: CommitContentMutation_def PostTask_status PerformNextOperation_status)
  show "LoadContent keys load_callback (s\<lparr>database_status := status\<rparr>) =
        (LoadContent keys load_callback s)\<lparr>database_status := status\<rparr>"
    by (simp add: LoadContent_def dispatch_status Let_def)
  show "LoadContentByPrefix key_prefix load_callback (s\<lparr>database_status := status\<rparr>) =
        (LoadContentByPrefix key_prefix load_callback s)\<lparr>database_status := status\<rparr>"
    by (simp add: LoadContentByPrefix_def dispatch_status)
  show "LoadAllContentKeys key_callback (s\<lparr>database_status := status\<rparr>) =
        (LoadAllContentKeys key_callback s)\<lparr>database_status := status\<rparr>"
    by (simp add: LoadAllContentKeys_def dispatch_status)
  show "db_requests (LoadContent keys load_callback s) =
        db_requests s @ [LoadEntriesWithFilter (DatabaseKeyFilter (set keys)) CreateReadOptions []
                           (Bind_OnLoadEntriesForLoadContent load_callback)]"
    by (simp add: LoadContent_def dispatch_def Let_def)
  show "db_requests (LoadContentByPrefix key_prefix load_callback s) =
        db_requests s @ [LoadEntriesWithFilter (DatabasePrefixFilter key_prefix) CreateReadOptions []
                           (Bind_OnLoadEntriesForLoadContent load_callback)]"
    by (simp add: LoadContentByPrefix_def dispatch_def)
  show "db_requests (LoadAllContentKeys key_callback s) =
        db_requests s @ [LoadKeys (Bind_OnLoadKeysForLoadAllContentKeys key_callback)]"
    by (simp add: LoadAllContentKeys_def dispatch_def)
next
  assume rec: "recognised (op_type operation)"
  have "CommitContentMutation (operation # remaining) callback s =
        dispatch (request_for operation remaining callback) s"
    using rec by (simp add: CommitContentMutation_def Empty_def PerformNextOperation_recognised)
  then show "db_requests (CommitContentMutation (operation # remaining) callback s) =
             db_requests s @ [request_for operation remaining callback]"
    and "task_queue (CommitContentMutation (operation # remaining) callback s) = task_queue s"
    by (simp_all add: dispatch_def)
qed

theorem requests_ignore_readiness_witness:
  "recognised (op_type (CreateUpsertOperation ''a'' ''1''))
   \<and> CommitContentMutation [CreateUpsertOperation ''a'' ''1''] 7 ((opened [])\<lparr>database_status := kNotInitialized\<rparr>) =
       (CommitContentMutation [CreateUpsertOperation ''a'' ''1''] 7 (opened []))\<lparr>database_status := kNotInitialized\<rparr>
   \<and> db_requests (CommitContentMutation [CreateUpsertOperation ''a'' ''1''] 7 (opened [])) =
       [UpdateEntries [(''a'', \<lparr>proto_key = ''a'', proto_content_data = ''1''\<rparr>)] []
          (Bind_OnOperationCommitted [] 7)]
   \<and> task_queue (CommitContentMutation [CreateUpsertOperation ''a'' ''1''] 7 (opened [])) = []"
proof -
  have rec: "recognised (op_type (CreateUpsertOperation ''a'' ''1''))"
    by (simp add: CreateUpsertOperation_def)
  note th = requests_ignore_readiness [where content_mutation = "[CreateUpsertOperation ''a'' ''1'']"
      and callback = 7 and s = "opened []" and status = kNotInitialized
      and operation = "CreateUpsertOperation ''a'' ''1''" and remaining = "[]"]
  have a: "CommitContentMutation [CreateUpsertOperation ''a'' ''1''] 7 ((opened [])\<lparr>database_status := kNotInitialized\<rparr>) =
       (CommitContentMutation [CreateUpsertOperation ''a'' ''1''] 7 (opened []))\<lparr>database_status := kNotInitialized\<rparr>"
    using th by (rule conjunct1)
  note imp = th [THEN conjunct2, THEN conjunct2, THEN conjunct2, THEN conjunct2,
      THEN conjunct2, THEN conjunct2, THEN conjunct2]
  note both = mp [OF imp rec]
  have b: "db_requests (CommitContentMutation [CreateUpsertOperation ''a'' ''1''] 7 (opened [])) =
       [UpdateEntries [(''a'', \<lparr>proto_key = ''a'', proto_content_data = ''1''\<rparr>)] []
          (Bind_OnOperationCommitted [] 7)]"
    using both [THEN conjunct1]
    by (simp add: opened_def request_for_def CreateUpsertOperation_def)
  have c: "task_queue (CommitContentMutation [CreateUpsertOperation ''a'' ''1''] 7 (opened [])) = []"
    using both [THEN conjunct2] by (simp add: opened_def)
  show ?thesis by (intro conjI rec a b c)
qed

end
